theory Spec2Isabelle
  imports Main "HOL-Library.Multiset"
begin

section \<open>JavaScript numbers, strings and objects used as dictionaries\<close>

text \<open>
  \<^verbatim>\<open>Number.prototype.toString\<close> on a non-negative integer (a database id), and the
  conversion \<^verbatim>\<open>Number(s)\<close> on a string of decimal digits; any other string is read as
  \<^verbatim>\<open>NaN\<close>, which equals no id (signs, blanks, exponents and radix prefixes are not
  modelled: the strings converted are comment ids).
\<close>

definition digitChar :: "nat \<Rightarrow> char" where
  "digitChar d = char_of (48 + d)"

fun toString :: "nat \<Rightarrow> string" where
  "toString n = (if n < 10 then [digitChar n] else toString (n div 10) @ [digitChar (n mod 10)])"

declare toString.simps [simp del]

definition digitValue :: "char \<Rightarrow> nat option" where
  "digitValue c =
     (let v = (of_char c :: nat) in if 48 \<le> v \<and> v \<le> 57 then Some (v - 48) else None)"

fun parseDecimal :: "string \<Rightarrow> nat \<Rightarrow> nat option" where
  "parseDecimal [] acc = Some acc"
| "parseDecimal (c # cs) acc =
     (case digitValue c of None \<Rightarrow> None | Some d \<Rightarrow> parseDecimal cs (10 * acc + d))"

definition Number :: "string \<Rightarrow> nat option" where
  "Number s = parseDecimal s 0"

text \<open>
  An object used as a dictionary keeps its properties in insertion order; assigning to an
  existing key keeps the key's place. \<^verbatim>\<open>for (k in o)\<close> visits the keys that are array
  indices first, in ascending numeric order, and then the other keys in insertion order.
  The function \<open>arrayIndex\<close> tells which keys are array indices.
\<close>

type_synonym ('k, 'v) dict = "('k \<times> 'v) list"

definition dictGet :: "('k, 'v) dict \<Rightarrow> 'k \<Rightarrow> 'v option" where
  "dictGet d k = map_of d k"

fun dictSet :: "('k, 'v) dict \<Rightarrow> 'k \<Rightarrow> 'v \<Rightarrow> ('k, 'v) dict" where
  "dictSet [] k v = [(k, v)]"
| "dictSet ((k', v') # d) k v = (if k' = k then (k, v) # d else (k', v') # dictSet d k v)"

definition dictDelete :: "('k, 'v) dict \<Rightarrow> 'k \<Rightarrow> ('k, 'v) dict" where
  "dictDelete d k = filter (\<lambda>entry. fst entry \<noteq> k) d"

definition forIn :: "('k \<Rightarrow> nat option) \<Rightarrow> ('k, 'v) dict \<Rightarrow> ('k \<times> 'v) list" where
  "forIn arrayIndex d =
     sort_key (\<lambda>entry. the (arrayIndex (fst entry))) (filter (\<lambda>entry. arrayIndex (fst entry) \<noteq> None) d)
     @ filter (\<lambda>entry. arrayIndex (fst entry) = None) d"

text \<open>
  A string key is an array index when it is the canonical decimal form of a number below
  \<open>2^32 - 1\<close>.
\<close>

definition stringIndex :: "string \<Rightarrow> nat option" where
  "stringIndex s =
     (case parseDecimal s 0 of
        None \<Rightarrow> None
      | Some n \<Rightarrow> if s \<noteq> [] \<and> toString n = s \<and> n < 4294967295 then Some n else None)"

text \<open>
  The key \<^verbatim>\<open>String(position)\<close> of a nullable integer position is modelled by the position
  itself, \<^verbatim>\<open>String\<close> being one-to-one on these values; \<^verbatim>\<open>"null"\<close> and the negative
  numbers are no array indices.
\<close>

definition positionIndex :: "int option \<Rightarrow> nat option" where
  "positionIndex p =
     (case p of
        None \<Rightarrow> None
      | Some n \<Rightarrow> if 0 \<le> n \<and> n < 4294967295 then Some (nat n) else None)"

text \<open>
  \<^verbatim>\<open>groupBy\<close> of \<^verbatim>\<open>common/utils\<close>:
  \<^verbatim>\<open>arr.reduce((result, el) => { const key = fn(el); result[key] = [...(result[key] || []), el]; return result; }, Object.create(null))\<close>.
\<close>

definition groupBy :: "'a list \<Rightarrow> ('a \<Rightarrow> 'k) \<Rightarrow> ('k, 'a list) dict" where
  "groupBy arr fn =
     fold (\<lambda>el result.
             dictSet result (fn el) ((case dictGet result (fn el) of None \<Rightarrow> [] | Some g \<Rightarrow> g) @ [el]))
          arr []"

subsection \<open>Facts about ids as strings\<close>

lemma digitChar_inj: "a < 10 \<Longrightarrow> b < 10 \<Longrightarrow> digitChar a = digitChar b \<Longrightarrow> a = b"
proof -
  assume a: "a < 10" and b: "b < 10" and eq: "digitChar a = digitChar b"
  have "(of_char (digitChar a) :: nat) = of_char (digitChar b)"
    using eq by simp
  then have "(48 + a) mod 256 = (48 + b) mod 256"
    by (simp add: digitChar_def)
  then show "a = b" using a b by simp
qed

lemma toString_nonempty: "toString n \<noteq> []"
  by (induction n rule: toString.induct) (subst toString.simps, simp)

lemma toString_small: "n < 10 \<Longrightarrow> toString n = [digitChar n]"
  by (subst toString.simps) simp

lemma toString_large: "\<not> n < 10 \<Longrightarrow> toString n = toString (n div 10) @ [digitChar (n mod 10)]"
  by (subst toString.simps) simp

lemma toString_inj: "toString a = toString b \<Longrightarrow> a = b"
proof (induction a arbitrary: b rule: toString.induct)
  case (1 n)
  show ?case
  proof (cases "n < 10")
    case True
    then have one: "toString b = [digitChar n]"
      using "1.prems" by (simp add: toString_small)
    have "b < 10"
    proof (rule ccontr)
      assume "\<not> b < 10"
      then have "toString b = toString (b div 10) @ [digitChar (b mod 10)]"
        by (rule toString_large)
      with one have "toString (b div 10) = []" by simp
      then show False by (simp add: toString_nonempty)
    qed
    with one True show ?thesis
      by (simp add: toString_small digitChar_inj)
  next
    case False
    then have n: "toString n = toString (n div 10) @ [digitChar (n mod 10)]"
      by (rule toString_large)
    have "\<not> b < 10"
    proof
      assume "b < 10"
      then have "toString b = [digitChar b]" by (rule toString_small)
      with n "1.prems" have "toString (n div 10) = []" by simp
      then show False by (simp add: toString_nonempty)
    qed
    then have b: "toString b = toString (b div 10) @ [digitChar (b mod 10)]"
      by (rule toString_large)
    from n b "1.prems"
    have front: "toString (n div 10) = toString (b div 10)"
      and units: "digitChar (n mod 10) = digitChar (b mod 10)"
      by simp_all
    from front have "n div 10 = b div 10"
      using "1.IH" False by blast
    moreover from units have "n mod 10 = b mod 10"
      by (rule digitChar_inj [rotated 2]) simp_all
    ultimately show ?thesis
      by (metis div_mult_mod_eq)
  qed
qed

lemma toString_eq_iff [simp]: "toString a = toString b \<longleftrightarrow> a = b"
  using toString_inj by blast

lemma digitValue_digitChar: "d < 10 \<Longrightarrow> digitValue (digitChar d) = Some d"
  by (simp add: digitValue_def digitChar_def Let_def)

lemma parseDecimal_append:
  "parseDecimal (xs @ ys) acc =
     (case parseDecimal xs acc of None \<Rightarrow> None | Some m \<Rightarrow> parseDecimal ys m)"
  by (induction xs arbitrary: acc) (simp_all split: option.splits)

lemma parseDecimal_toString: "parseDecimal (toString n) 0 = Some n"
proof (induction n rule: toString.induct)
  case (1 n)
  show ?case
  proof (cases "n < 10")
    case True
    then show ?thesis
      by (simp add: toString_small digitValue_digitChar)
  next
    case False
    then show ?thesis
      using "1.IH"
      by (simp add: toString_large parseDecimal_append digitValue_digitChar)
  qed
qed

lemma Number_toString [simp]: "Number (toString n) = Some n"
  by (simp add: Number_def parseDecimal_toString)

subsection \<open>Facts about dictionaries\<close>

lemma dictSet_map_of: "map_of (dictSet d k v) = (map_of d)(k \<mapsto> v)"
  by (induction d k v rule: dictSet.induct) auto

lemma dictSet_keys:
  "map fst (dictSet d k v) = (if k \<in> fst ` set d then map fst d else map fst d @ [k])"
  by (induction d k v rule: dictSet.induct) (auto simp: image_iff)

lemma dictSet_distinct: "distinct (map fst d) \<Longrightarrow> distinct (map fst (dictSet d k v))"
  by (simp add: dictSet_keys)

lemma groupBy_snoc:
  "groupBy (xs @ [x]) f =
     dictSet (groupBy xs f) (f x)
       ((case dictGet (groupBy xs f) (f x) of None \<Rightarrow> [] | Some g \<Rightarrow> g) @ [x])"
  by (simp add: groupBy_def)

lemma groupBy_distinct: "distinct (map fst (groupBy xs f))"
proof (induction xs rule: rev_induct)
  case Nil
  show ?case by (simp add: groupBy_def)
next
  case (snoc x xs)
  then show ?case by (simp only: groupBy_snoc dictSet_distinct)
qed

lemma groupBy_map_of:
  "map_of (groupBy xs f) k =
     (if k \<in> f ` set xs then Some (filter (\<lambda>x. f x = k) xs) else None)"
proof (induction xs arbitrary: k rule: rev_induct)
  case Nil
  show ?case by (simp add: groupBy_def)
next
  case (snoc x xs)
  show ?case
    by (auto simp: groupBy_snoc dictSet_map_of dictGet_def snoc.IH empty_filter_conv image_iff)
qed

lemma groupBy_entry:
  "(k, g) \<in> set (groupBy xs f) \<longleftrightarrow> k \<in> f ` set xs \<and> g = filter (\<lambda>x. f x = k) xs"
proof -
  have "(k, g) \<in> set (groupBy xs f) \<longleftrightarrow> map_of (groupBy xs f) k = Some g"
    using groupBy_distinct [of xs f] by (metis map_of_eq_Some_iff)
  then show ?thesis
    by (auto simp: groupBy_map_of)
qed

lemma forIn_mset: "mset (forIn arrayIndex d) = mset d"
proof -
  have "mset (forIn arrayIndex d) =
          mset (filter (\<lambda>entry. arrayIndex (fst entry) \<noteq> None) d)
          + mset (filter (\<lambda>entry. \<not> arrayIndex (fst entry) \<noteq> None) d)"
    by (simp add: forIn_def)
  then show ?thesis
    by (simp only: mset_filter multiset_partition [symmetric])
qed

lemma forIn_set [simp]: "set (forIn arrayIndex d) = set d"
  using forIn_mset [of arrayIndex d] by (metis set_mset_mset)

lemma forIn_distinct_keys:
  "distinct (map fst d) \<Longrightarrow> distinct (map fst (forIn arrayIndex d))"
proof -
  assume d: "distinct (map fst d)"
  have "mset (map fst (forIn arrayIndex d)) = mset (map fst d)"
    using forIn_mset [of arrayIndex d] by (metis mset_map)
  then show ?thesis using d by (metis mset_eq_imp_distinct_iff)
qed

section \<open>Diff hunk model\<close>

text \<open>
  \<^verbatim>\<open>DiffChangeType\<close> and \<^verbatim>\<open>DiffLine\<close> as declared in the repository
  (\<^verbatim>\<open>export enum DiffChangeType { Context, Add, Delete, Control }\<close>, class
  \<^verbatim>\<open>DiffLine\<close> with the getter \<^verbatim>\<open>text = _raw.substr(1)\<close>). Line numbers are JavaScript
  numbers holding integers; they are modelled as \<open>int\<close>.
\<close>

datatype DiffChangeType = Context | Add | Delete | Control

record DiffLine =
  type :: DiffChangeType
  oldLineNumber :: int
  newLineNumber :: int
  positionInHunk :: int
  raw :: string

definition lineText :: "DiffLine \<Rightarrow> string" where
  "lineText l = drop 1 (raw l)"

text \<open>
  The class \<^verbatim>\<open>DiffHunk\<close> with the fields of its constructor and its \<^verbatim>\<open>diffLines\<close>
  (the fields \<^verbatim>\<open>oldLineNumber\<close>, \<^verbatim>\<open>newLineNumber\<close> and \<^verbatim>\<open>positionInHunk\<close> carry the
  prefix \<open>hunk\<close> here, the names being taken by the fields of a line). The numbers of a
  hunk are those of its header \<^verbatim>\<open>@@ -a,b +c,d @@\<close> and its place in the patch, which are
  not negative.
\<close>

record DiffHunk =
  hunkOldLineNumber :: nat
  oldLength :: nat
  hunkNewLineNumber :: nat
  newLength :: nat
  hunkPositionInHunk :: nat
  diffLines :: "DiffLine list"

text \<open>\<^verbatim>\<open>Array.prototype.join\<close> with an explicit separator.\<close>

fun join :: "string \<Rightarrow> string list \<Rightarrow> string" where
  "join sep [] = []"
| "join sep [x] = x"
| "join sep (x # y # ys) = x @ sep @ join sep (y # ys)"

section \<open>File changes and document URIs\<close>

text \<open>
  \<^verbatim>\<open>GitChangeType\<close> lives in \<^verbatim>\<open>common/file\<close>, which is not part of the sources at hand;
  the code under study names the members \<^verbatim>\<open>ADD\<close>, \<^verbatim>\<open>DELETE\<close>, \<^verbatim>\<open>MODIFY\<close> and
  \<^verbatim>\<open>RENAME\<close>, the remaining statuses are collected in \<open>OTHER\<close>.
\<close>

datatype GitChangeType = ADD | DELETE | MODIFY | RENAME | OTHER

text \<open>
  The parameters that \<^verbatim>\<open>fromPRUri\<close> and \<^verbatim>\<open>fromReviewUri\<close> decode from the query of a
  document URI. The decoders are in \<^verbatim>\<open>common/uri\<close>, not in the sources at hand; a URI is
  modelled with its query already decoded, so that \<open>fromPRUri\<close> and \<open>fromReviewUri\<close> are
  projections that yield nothing on a URI of another kind.
\<close>

record PRUriParams =
  pr_fileName :: string
  pr_isBase :: bool
  pr_baseCommit :: string
  pr_prNumber :: nat

record ReviewUriParams =
  rv_path :: string
  rv_commit :: string
  rv_base :: bool
  rv_isOutdated :: bool

datatype UriQuery = EmptyQuery | PRQuery PRUriParams | ReviewQuery ReviewUriParams

record Uri =
  scheme :: string
  uriPath :: string
  query :: UriQuery

definition fromPRUri :: "Uri \<Rightarrow> PRUriParams option" where
  "fromPRUri uri = (case query uri of PRQuery p \<Rightarrow> Some p | _ \<Rightarrow> None)"

definition fromReviewUri :: "Uri \<Rightarrow> ReviewUriParams option" where
  "fromReviewUri uri = (case query uri of ReviewQuery p \<Rightarrow> Some p | _ \<Rightarrow> None)"

section \<open>Comments\<close>

text \<open>
  The raw \<^verbatim>\<open>Comment\<close> of \<^verbatim>\<open>common/comment\<close> with the fields the code under study
  reads or writes. Database ids are natural numbers; \<^verbatim>\<open>null\<close> and \<^verbatim>\<open>undefined\<close>
  are \<open>None\<close>. A reaction summary carries its label and whether the viewer reacted.
\<close>

record Reaction =
  reactionLabel :: string
  viewerHasReacted :: bool
  count :: nat

record Comment =
  id :: nat
  pullRequestReviewId :: "nat option"
  path :: "string option"
  position :: "int option"
  originalPosition :: "int option"
  commitId :: "string option"
  originalCommitId :: "string option"
  body :: string
  diffHunk :: string
  commentDiffHunks :: "DiffHunk list option"
  absolutePosition :: "int option"
  reactions :: "Reaction list option"
  graphNodeId :: string
  canEdit :: bool
  canDelete :: bool
  isDraft :: bool

text \<open>
  A file change node that carries parsed hunks and comments: the classes
  \<^verbatim>\<open>InMemFileChangeNode\<close> and \<^verbatim>\<open>GitFileChangeNode\<close> of \<^verbatim>\<open>fileChangeNode\<close> (not in the
  sources at hand) share the fields used here; \<open>sha\<close> is set on a \<^verbatim>\<open>GitFileChangeNode\<close>
  only. A \<^verbatim>\<open>RemoteFileChangeNode\<close> has neither hunks nor comments.
\<close>

record FileChangeNode =
  status :: GitChangeType
  fileName :: string
  previousFileName :: "string option"
  filePath :: Uri
  parentFilePath :: Uri
  isPartial :: bool
  patch :: string
  diffHunks :: "DiffHunk list"
  comments :: "Comment list"
  sha :: "string option"

record RemoteFileChangeNode =
  remoteStatus :: GitChangeType
  remoteFileName :: string
  blobUrl :: string

datatype AnyFileChangeNode = Remote RemoteFileChangeNode | InMem FileChangeNode

fun nodeFileName :: "AnyFileChangeNode \<Rightarrow> string" where
  "nodeFileName (Remote r) = remoteFileName r"
| "nodeFileName (InMem c) = fileName c"

fun isInMemFileChangeNode :: "AnyFileChangeNode \<Rightarrow> bool" where
  "isInMemFileChangeNode (Remote r) = False"
| "isInMemFileChangeNode (InMem c) = True"

datatype error = Error string

section \<open>Document content of a pull request file\<close>

text \<open>
  \<^verbatim>\<open>PRNode.provideDocumentContent\<close>. The two nested \<^verbatim>\<open>for\<close> loops over hunks and lines
  become recursive functions whose accumulator is the array being pushed to; the branches
  are kept in the order of the source.
\<close>

fun leftLines :: "DiffLine list \<Rightarrow> string list \<Rightarrow> string list" where
  "leftLines [] left = left"
| "leftLines (diffLine # ls) left =
     (if type diffLine = Add then leftLines ls left
      else if type diffLine = Delete then leftLines ls (left @ [lineText diffLine])
      else if type diffLine = Control then leftLines ls left
      else leftLines ls (left @ [lineText diffLine]))"

fun leftHunks :: "DiffHunk list \<Rightarrow> string list \<Rightarrow> string list" where
  "leftHunks [] left = left"
| "leftHunks (h # hs) left = leftHunks hs (leftLines (diffLines h) left)"

fun rightLines :: "DiffLine list \<Rightarrow> string list \<Rightarrow> string list" where
  "rightLines [] right = right"
| "rightLines (diffLine # ls) right =
     (if type diffLine = Add then rightLines ls (right @ [lineText diffLine])
      else if type diffLine = Delete then rightLines ls right
      else if type diffLine = Control then rightLines ls right
      else rightLines ls (right @ [lineText diffLine]))"

fun rightHunks :: "DiffHunk list \<Rightarrow> string list \<Rightarrow> string list" where
  "rightHunks [] right = right"
| "rightHunks (h # hs) right = rightHunks hs (rightLines (diffLines h) right)"

text \<open>
  The collaborators of the branch that reads the file from the repository are parameters:
  \<open>repoShow\<close> is \<^verbatim>\<open>repository.show(commit, path)\<close> (it may reject), \<open>getModified\<close> is
  \<^verbatim>\<open>getModifiedContentFromDiffHunk\<close> and \<open>joinRoot\<close> is \<^verbatim>\<open>path.join\<close> with the
  repository root. \<^verbatim>\<open>path.join\<close> throws on the \<^verbatim>\<open>undefined\<close> previous file name of a
  rename.
\<close>

definition provideDocumentContent ::
  "(string \<Rightarrow> string \<Rightarrow> error + string) \<Rightarrow> (string \<Rightarrow> string \<Rightarrow> string) \<Rightarrow>
   (string \<Rightarrow> string) \<Rightarrow> AnyFileChangeNode list \<Rightarrow> Uri \<Rightarrow> error + string" where
  "provideDocumentContent repoShow getModified joinRoot fileChanges uri =
     (case fromPRUri uri of
        None \<Rightarrow> Inr ''''
      | Some params \<Rightarrow>
          (case filter (\<lambda>contentChange. isInMemFileChangeNode contentChange
                          \<and> nodeFileName contentChange = pr_fileName params) fileChanges of
             InMem fileChange # _ \<Rightarrow>
               if isPartial fileChange \<or> status fileChange = ADD \<or> status fileChange = DELETE
               then (if pr_isBase params
                     then Inr (join [CHR 0x0A] (leftHunks (diffHunks fileChange) []))
                     else Inr (join [CHR 0x0A] (rightHunks (diffHunks fileChange) [])))
               else (case (if status fileChange = RENAME then previousFileName fileChange
                           else Some (fileName fileChange)) of
                       None \<Rightarrow> Inl (Error ''The path argument must be of type string'')
                     | Some originalFileName \<Rightarrow>
                         (case repoShow (pr_baseCommit params) (joinRoot originalFileName) of
                            Inl e \<Rightarrow> Inl e
                          | Inr originalContent \<Rightarrow>
                              if pr_isBase params then Inr originalContent
                              else Inr (getModified originalContent (patch fileChange))))
           | _ \<Rightarrow> Inr ''''))"

lemma leftLines_filter:
  "leftLines ls acc = acc @ map lineText (filter (\<lambda>l. type l = Context \<or> type l = Delete) ls)"
proof (induction ls arbitrary: acc)
  case Nil
  show ?case by simp
next
  case (Cons l ls)
  show ?case by (cases "type l") (simp_all add: Cons.IH)
qed

lemma leftHunks_filter:
  "leftHunks hs acc =
     acc @ map lineText (filter (\<lambda>l. type l = Context \<or> type l = Delete) (concat (map diffLines hs)))"
  by (induction hs arbitrary: acc) (simp_all add: leftLines_filter)

lemma rightLines_filter:
  "rightLines ls acc = acc @ map lineText (filter (\<lambda>l. type l = Context \<or> type l = Add) ls)"
proof (induction ls arbitrary: acc)
  case Nil
  show ?case by simp
next
  case (Cons l ls)
  show ?case by (cases "type l") (simp_all add: Cons.IH)
qed

lemma rightHunks_filter:
  "rightHunks hs acc =
     acc @ map lineText (filter (\<lambda>l. type l = Context \<or> type l = Add) (concat (map diffLines hs)))"
  by (induction hs arbitrary: acc) (simp_all add: rightLines_filter)

lemma join_concat:
  "join [c] xs = (case xs of [] \<Rightarrow> [] | x # rest \<Rightarrow> x @ concat (map ((#) c) rest))"
  by (induction "[c]" xs rule: join.induct) simp_all

text \<open>
  C10. When the content of the first matching in-memory file change is read from its diff
  hunks (it is partial, added or deleted), \<open>provideDocumentContent\<close> returns, for the base
  side, exactly the texts of the Context and Delete lines of all hunks in hunk and line
  order, and for the head side exactly the texts of the Context and Add lines; lines of
  the other kinds are left out. The text of a line is its raw text without the first
  character, and the texts are joined by a line feed: the result is the first text
  followed by every other text with a line feed before it.
\<close>

theorem provideDocumentContent_reads_hunks:
  assumes "fromPRUri uri = Some params"
    and "filter (\<lambda>c. isInMemFileChangeNode c \<and> nodeFileName c = pr_fileName params) fileChanges
           = InMem fileChange # others"
    and "isPartial fileChange \<or> status fileChange = ADD \<or> status fileChange = DELETE"
  shows "provideDocumentContent repoShow getModified joinRoot fileChanges uri =
           Inr (case map (\<lambda>l. drop 1 (raw l))
                      (filter (\<lambda>l. if pr_isBase params then type l = Context \<or> type l = Delete
                                    else type l = Context \<or> type l = Add)
                         (concat (map diffLines (diffHunks fileChange)))) of
                  [] \<Rightarrow> []
                | first # rest \<Rightarrow> first @ concat (map (\<lambda>t. CHR 0x0A # t) rest))"
proof -
  have texts: "lineText = (\<lambda>l. drop 1 (raw l))"
    by (rule ext) (simp add: lineText_def)
  show ?thesis
    using assms
    by (simp add: provideDocumentContent_def leftHunks_filter rightHunks_filter join_concat texts)
qed

text \<open>
  A file added by the pull request, with one hunk of a control line, two context lines,
  two added lines and a deleted line, and the URIs of its base side and of its head side.
\<close>

definition exampleHunk :: DiffHunk where
  "exampleHunk =
     \<lparr>hunkOldLineNumber = 10, oldLength = 3, hunkNewLineNumber = 10, newLength = 4,
      hunkPositionInHunk = 0,
      diffLines = [\<lparr>type = Control, oldLineNumber = -1, newLineNumber = -1, positionInHunk = 0,
                     raw = ''@@ -10,3 +10,4 @@''\<rparr>,
                   \<lparr>type = Context, oldLineNumber = 10, newLineNumber = 10, positionInHunk = 1,
                     raw = '' ctx1''\<rparr>,
                   \<lparr>type = Add, oldLineNumber = -1, newLineNumber = 11, positionInHunk = 2,
                     raw = ''+added1''\<rparr>,
                   \<lparr>type = Delete, oldLineNumber = 11, newLineNumber = -1, positionInHunk = 3,
                     raw = ''-gone1''\<rparr>,
                   \<lparr>type = Add, oldLineNumber = -1, newLineNumber = 12, positionInHunk = 4,
                     raw = ''+added2''\<rparr>,
                   \<lparr>type = Context, oldLineNumber = 12, newLineNumber = 13, positionInHunk = 5,
                     raw = '' ctx2''\<rparr>]\<rparr>"

definition exampleParams :: PRUriParams where
  "exampleParams = \<lparr>pr_fileName = ''a.ts'', pr_isBase = True, pr_baseCommit = ''c0'', pr_prNumber = 1\<rparr>"

definition exampleUri :: Uri where
  "exampleUri = \<lparr>scheme = ''pr'', uriPath = ''a.ts'', query = PRQuery exampleParams\<rparr>"

definition exampleHeadUri :: Uri where
  "exampleHeadUri =
     \<lparr>scheme = ''pr'', uriPath = ''a.ts'', query = PRQuery (exampleParams\<lparr>pr_isBase := False\<rparr>)\<rparr>"

definition exampleFile :: FileChangeNode where
  "exampleFile =
     \<lparr>status = ADD, fileName = ''a.ts'', previousFileName = None,
      filePath = exampleUri, parentFilePath = exampleUri, isPartial = False, patch = [],
      diffHunks = [exampleHunk], comments = [], sha = None\<rparr>"

theorem provideDocumentContent_reads_hunks_witness:
  "provideDocumentContent (\<lambda>commit p. Inr []) (\<lambda>original patch. original) (\<lambda>p. p)
     [InMem exampleFile] exampleUri
     = Inr (''ctx1'' @ [CHR 0x0A] @ ''gone1'' @ [CHR 0x0A] @ ''ctx2'')
   \<and> provideDocumentContent (\<lambda>commit p. Inr []) (\<lambda>original patch. original) (\<lambda>p. p)
     [InMem exampleFile] exampleHeadUri
     = Inr (''ctx1'' @ [CHR 0x0A] @ ''added1'' @ [CHR 0x0A] @ ''added2'' @ [CHR 0x0A] @ ''ctx2'')"
  using provideDocumentContent_reads_hunks [of exampleUri exampleParams "[InMem exampleFile]"
      exampleFile "[]" "\<lambda>commit p. Inr []" "\<lambda>original patch. original" "\<lambda>p. p"]
    provideDocumentContent_reads_hunks [of exampleHeadUri "exampleParams\<lparr>pr_isBase := False\<rparr>"
      "[InMem exampleFile]" exampleFile "[]" "\<lambda>commit p. Inr []" "\<lambda>original patch. original"
      "\<lambda>p. p"]
  by (simp add: fromPRUri_def exampleUri_def exampleHeadUri_def exampleParams_def
      exampleFile_def exampleHunk_def)

section \<open>Comment threads of the editor\<close>

text \<open>
  The editor's \<^verbatim>\<open>vscode.Comment\<close>, \<^verbatim>\<open>vscode.CommentReaction\<close> and
  \<^verbatim>\<open>vscode.CommentThread\<close> with the fields the code under study uses. A command is kept
  by title and command id. \<^verbatim>\<open>body.value\<close> is \<open>bodyValue\<close> and the patched back-reference
  \<^verbatim>\<open>_rawComment\<close> is \<open>rawComment\<close>. A range is given by its four coordinates.
\<close>

record Command =
  title :: string
  command :: string

record CommentReaction =
  label :: string
  hasReacted :: bool

record VSComment =
  rawComment :: Comment
  commentId :: string
  bodyValue :: string
  selectCommand :: "Command option"
  commentLabel :: "string option"
  commentReactions :: "CommentReaction list option"
  editCommand :: "Command option"
  deleteCommand :: "Command option"

datatype CommentThreadCollapsibleState = Collapsed | Expanded

datatype Range = Range int int int int

record CommentThread =
  threadId :: string
  resource :: Uri
  range :: Range
  threadComments :: "VSComment list"
  collapsibleState :: CommentThreadCollapsibleState

section \<open>Detecting an edited thread (\<^verbatim>\<open>commentsEditedInThread\<close>)\<close>

text \<open>
  The closing \<^verbatim>\<open>for\<close> loop over the reactions of the matching comment. It is entered
  only when both reaction lists have the same length.
\<close>

fun reactionLoop :: "CommentReaction list \<Rightarrow> CommentReaction list \<Rightarrow> bool" where
  "reactionLoop (m # ms) (old # olds) =
     (if label m \<noteq> label old \<or> hasReacted m \<noteq> hasReacted old then True
      else reactionLoop ms olds)"
| "reactionLoop ms olds = False"

text \<open>
  The callback given to \<^verbatim>\<open>oldComments.some\<close>, with its early returns in order. A
  reaction list is falsy only when it is absent.
\<close>

definition commentEdited :: "VSComment list \<Rightarrow> VSComment \<Rightarrow> bool" where
  "commentEdited newComments oldComment =
     (case filter (\<lambda>newComment. commentId newComment = commentId oldComment) newComments of
        [matchingComment] \<Rightarrow>
          if bodyValue matchingComment \<noteq> bodyValue oldComment then True
          else (case (commentReactions matchingComment, commentReactions oldComment) of
                  (None, None) \<Rightarrow> False
                | (None, Some olds) \<Rightarrow> True
                | (Some ms, None) \<Rightarrow> True
                | (Some ms, Some olds) \<Rightarrow>
                    if length ms \<noteq> length olds then True else reactionLoop ms olds)
      | _ \<Rightarrow> True)"

definition commentsEditedInThread :: "VSComment list \<Rightarrow> VSComment list \<Rightarrow> bool" where
  "commentsEditedInThread oldComments newComments = list_ex (commentEdited newComments) oldComments"

section \<open>Reconciling by thread id (\<^verbatim>\<open>updateComments\<close>)\<close>

text \<open>
  The first \<^verbatim>\<open>forEach\<close> of \<^verbatim>\<open>updateComments\<close>: an old thread is removed when no new
  thread has its id.
\<close>

fun removedLoop :: "CommentThread list \<Rightarrow> CommentThread list \<Rightarrow> CommentThread list \<Rightarrow> CommentThread list" where
  "removedLoop [] newCommentThreads removed = removed"
| "removedLoop (thread # rest) newCommentThreads removed =
     (let matchingThreads = filter (\<lambda>newThread. threadId newThread = threadId thread) newCommentThreads
      in removedLoop rest newCommentThreads
           (if length matchingThreads = 0 then removed @ [thread] else removed))"

text \<open>
  The inner \<^verbatim>\<open>matchingCommentThread.forEach\<close>: the new thread is pushed to \<^verbatim>\<open>changed\<close>
  once for every old thread of the same id whose length differs, or when the comments of
  the first such old thread were edited.
\<close>

fun changedLoop :: "CommentThread list \<Rightarrow> CommentThread \<Rightarrow> CommentThread \<Rightarrow> CommentThread list \<Rightarrow> CommentThread list" where
  "changedLoop [] first thread changed = changed"
| "changedLoop (match # rest) first thread changed =
     changedLoop rest first thread
       (if length (threadComments match) \<noteq> length (threadComments thread)
           \<or> commentsEditedInThread (threadComments first) (threadComments thread)
        then changed @ [thread] else changed)"

text \<open>
  The second \<^verbatim>\<open>forEach\<close>, over the new threads. A thread without a match is pushed to
  \<^verbatim>\<open>added\<close> and collapsed when it is on a workspace file; the assignment is to the object
  that was pushed.
\<close>

fun addedChangedLoop ::
  "CommentThread list \<Rightarrow> CommentThread list \<Rightarrow> CommentThread list \<times> CommentThread list
     \<Rightarrow> CommentThread list \<times> CommentThread list" where
  "addedChangedLoop [] oldCommentThreads (added, changed) = (added, changed)"
| "addedChangedLoop (thread # rest) oldCommentThreads (added, changed) =
     (let matchingCommentThread = filter (\<lambda>oldComment. threadId oldComment = threadId thread) oldCommentThreads;
          added' = (if length matchingCommentThread = 0
                    then added @ [if scheme (resource thread) = ''file''
                                  then thread\<lparr>collapsibleState := Collapsed\<rparr> else thread]
                    else added);
          changed' = (case matchingCommentThread of
                        [] \<Rightarrow> changed
                      | first # others \<Rightarrow> changedLoop matchingCommentThread first thread changed)
      in addedChangedLoop rest oldCommentThreads (added', changed'))"

record CommentThreadChangedEvent =
  added :: "CommentThread list"
  removed :: "CommentThread list"
  changed :: "CommentThread list"

definition reconcile :: "CommentThread list \<Rightarrow> CommentThread list \<Rightarrow> CommentThreadChangedEvent" where
  "reconcile oldCommentThreads newCommentThreads =
     (let removed = removedLoop oldCommentThreads newCommentThreads [];
          (added, changed) = addedChangedLoop newCommentThreads oldCommentThreads ([], [])
      in \<lparr>added = added, removed = removed, changed = changed\<rparr>)"

subsection \<open>The classification in the words of the specification\<close>

text \<open>
  Two reaction lists differ when exactly one is present, when their lengths differ, or
  when at some index the labels or the has-reacted flags differ.
\<close>

definition reactionListsDiffer :: "CommentReaction list option \<Rightarrow> CommentReaction list option \<Rightarrow> bool" where
  "reactionListsDiffer a b =
     (case (a, b) of
        (None, None) \<Rightarrow> False
      | (Some x, Some y) \<Rightarrow>
          length x \<noteq> length y
          \<or> (\<exists>i < length x. label (x ! i) \<noteq> label (y ! i) \<or> hasReacted (x ! i) \<noteq> hasReacted (y ! i))
      | _ \<Rightarrow> True)"

text \<open>
  A thread is changed when the comment lists differ in length, or some old comment has no
  unique match by id among the new comments, or an old comment and its unique match differ
  in body text or in their reaction lists.
\<close>

definition specChanged :: "VSComment list \<Rightarrow> VSComment list \<Rightarrow> bool" where
  "specChanged oldComments newComments \<longleftrightarrow>
     length oldComments \<noteq> length newComments
     \<or> (\<exists>old \<in> set oldComments.
           length (filter (\<lambda>n. commentId n = commentId old) newComments) \<noteq> 1)
     \<or> (\<exists>old \<in> set oldComments. \<exists>new \<in> set newComments.
           filter (\<lambda>n. commentId n = commentId old) newComments = [new]
           \<and> (bodyValue new \<noteq> bodyValue old
                \<or> reactionListsDiffer (commentReactions new) (commentReactions old)))"

lemma reactionLoop_index:
  "length ms = length olds \<Longrightarrow>
   reactionLoop ms olds \<longleftrightarrow>
     (\<exists>i < length ms. label (ms ! i) \<noteq> label (olds ! i) \<or> hasReacted (ms ! i) \<noteq> hasReacted (olds ! i))"
proof (induction ms olds rule: list_induct2)
  case Nil
  show ?case by simp
next
  case (Cons m ms old olds)
  have split: "\<And>P. (\<exists>i < Suc (length ms). P i) \<longleftrightarrow> P 0 \<or> (\<exists>i < length ms. P (Suc i))"
    by (metis less_Suc_eq_0_disj)
  show ?case
    by (simp add: Cons.IH split)
qed

lemma commentEdited_spec:
  "commentEdited newComments old \<longleftrightarrow>
     length (filter (\<lambda>n. commentId n = commentId old) newComments) \<noteq> 1
     \<or> (\<exists>new \<in> set newComments.
           filter (\<lambda>n. commentId n = commentId old) newComments = [new]
           \<and> (bodyValue new \<noteq> bodyValue old
                \<or> reactionListsDiffer (commentReactions new) (commentReactions old)))"
proof (cases "filter (\<lambda>n. commentId n = commentId old) newComments")
  case Nil
  then show ?thesis by (simp add: commentEdited_def)
next
  case (Cons m rest)
  show ?thesis
  proof (cases rest)
    case Nil
    have mem: "m \<in> set newComments"
    proof -
      have "m \<in> set (filter (\<lambda>n. commentId n = commentId old) newComments)"
        using Cons by simp
      then show ?thesis by simp
    qed
    have "commentEdited newComments old \<longleftrightarrow>
            bodyValue m \<noteq> bodyValue old \<or> reactionListsDiffer (commentReactions m) (commentReactions old)"
      using Cons Nil
      by (auto simp: commentEdited_def reactionListsDiffer_def reactionLoop_index
               split: option.splits)
    then show ?thesis using Cons Nil mem by auto
  next
    case (Cons m' rest')
    then show ?thesis using \<open>filter _ newComments = m # rest\<close>
      by (simp add: commentEdited_def)
  qed
qed

lemma commentsEditedInThread_spec:
  "length oldComments \<noteq> length newComments \<or> commentsEditedInThread oldComments newComments
     \<longleftrightarrow> specChanged oldComments newComments"
  unfolding commentsEditedInThread_def specChanged_def list_ex_iff
  using commentEdited_spec by blast

lemma changedLoop_mem:
  "t \<in> set (changedLoop ms first thread acc) \<longleftrightarrow>
     t \<in> set acc
     \<or> (t = thread \<and> (\<exists>m \<in> set ms. length (threadComments m) \<noteq> length (threadComments thread)
                                   \<or> commentsEditedInThread (threadComments first) (threadComments thread)))"
  by (induction ms first thread acc rule: changedLoop.induct) auto

lemma addedChangedLoop_changed_mem:
  "t \<in> set (snd (addedChangedLoop news olds (a, c))) \<longleftrightarrow>
     t \<in> set c
     \<or> (t \<in> set news
        \<and> (\<exists>m \<in> set (filter (\<lambda>old. threadId old = threadId t) olds).
              length (threadComments m) \<noteq> length (threadComments t)
              \<or> commentsEditedInThread
                    (threadComments (hd (filter (\<lambda>old. threadId old = threadId t) olds)))
                    (threadComments t)))"
proof (induction news arbitrary: a c)
  case Nil
  show ?case by simp
next
  case (Cons thread rest)
  show ?case
  proof (cases "filter (\<lambda>old. threadId old = threadId thread) olds")
    case Nil
    then have "\<forall>m \<in> set olds. threadId m \<noteq> threadId thread"
      by (simp add: filter_empty_conv)
    with Nil show ?thesis
      by (simp add: Cons.IH Let_def) blast
  next
    case (Cons first others)
    let ?ms = "\<lambda>t. filter (\<lambda>old. threadId old = threadId t) olds"
    let ?P = "\<lambda>t. \<exists>m \<in> set (?ms t).
                 length (threadComments m) \<noteq> length (threadComments t)
                 \<or> commentsEditedInThread (threadComments (hd (?ms t))) (threadComments t)"
    have step: "t \<in> set (snd (addedChangedLoop (thread # rest) olds (a, c))) \<longleftrightarrow>
                  t \<in> set (changedLoop (?ms thread) first thread c) \<or> (t \<in> set rest \<and> ?P t)"
      using Cons by (simp add: Cons.IH Let_def del: changedLoop.simps set_filter)
    have here: "t \<in> set (changedLoop (?ms thread) first thread c) \<longleftrightarrow>
                  t \<in> set c \<or> (t = thread \<and> ?P thread)"
      unfolding changedLoop_mem using Cons by (simp del: set_filter)
    show ?thesis
      unfolding step here by (auto simp del: set_filter)
  qed
qed

text \<open>
  In \<^verbatim>\<open>updateComments\<close>, a new thread whose id matches exactly one old thread is reported
  as changed if and only if the two comment lists differ in length, or some old comment
  has no unique match by id among the new comments, or an old comment and its match differ
  in body text, or exactly one of the two has a reaction list, or the reaction lists
  differ in length, or they differ at some index in label or in the has-reacted flag.
\<close>

lemma reconcile_changed_iff:
  assumes "filter (\<lambda>old. threadId old = threadId thread) oldCommentThreads = [match]"
    and "thread \<in> set newCommentThreads"
  shows "thread \<in> set (changed (reconcile oldCommentThreads newCommentThreads))
           \<longleftrightarrow> specChanged (threadComments match) (threadComments thread)"
proof -
  have "thread \<in> set (changed (reconcile oldCommentThreads newCommentThreads))
          \<longleftrightarrow> thread \<in> set (snd (addedChangedLoop newCommentThreads oldCommentThreads ([], [])))"
    by (simp add: reconcile_def Let_def split: prod.splits)
  also have "\<dots> \<longleftrightarrow> length (threadComments match) \<noteq> length (threadComments thread)
                     \<or> commentsEditedInThread (threadComments match) (threadComments thread)"
    using assms by (simp add: addedChangedLoop_changed_mem)
  also have "\<dots> \<longleftrightarrow> specChanged (threadComments match) (threadComments thread)"
    by (rule commentsEditedInThread_spec)
  finally show ?thesis .
qed

section \<open>Projecting comments into threads\<close>

text \<open>
  Modelled from the spec: \<^verbatim>\<open>getZeroBased\<close> of \<^verbatim>\<open>common/diffPositionMapping\<close> is not in
  the sources at hand; the specification gives it as \<^verbatim>\<open>n-1\<close> if \<^verbatim>\<open>n>0\<close>, else \<^verbatim>\<open>n\<close>
  unchanged.
\<close>

definition getZeroBased :: "int \<Rightarrow> int" where
  "getZeroBased n = (if n > 0 then n - 1 else n)"

text \<open>
  Modelled from the spec: \<^verbatim>\<open>convertToVSCodeComment\<close> of \<^verbatim>\<open>github/utils\<close> is not in the
  sources at hand. Its callers rely on the editor comment carrying the raw comment as
  \<^verbatim>\<open>_rawComment\<close>, the id as the string \<^verbatim>\<open>id.toString()\<close>, the body, the given select
  command and the reaction summary; the edit and delete commands are set by the callers.
\<close>

definition convertToVSCodeComment :: "Comment \<Rightarrow> Command option \<Rightarrow> VSComment" where
  "convertToVSCodeComment comment cmd =
     \<lparr>rawComment = comment,
      commentId = toString (id comment),
      bodyValue = body comment,
      selectCommand = cmd,
      commentLabel = (if isDraft comment then Some ''Draft'' else None),
      commentReactions =
        map_option (map (\<lambda>r. \<lparr>label = reactionLabel r, hasReacted = viewerHasReacted r\<rparr>))
          (reactions comment),
      editCommand = None,
      deleteCommand = None\<rparr>"

text \<open>
  The helpers of \<^verbatim>\<open>common/diffPositionMapping\<close> and the construction of URIs from the
  repository root are outside the sources at hand and are parameters of the projections:
  for a string \<open>p\<close>, \<open>workspaceUri p\<close> is \<^verbatim>\<open>rootUri.with({ path: join(rootUri.path, p) })\<close>
  and \<open>fileUri p\<close> is \<^verbatim>\<open>Uri.file(resolve(rootUri.fsPath, p))\<close>. On the \<^verbatim>\<open>null\<close> path of a
  comment \<^verbatim>\<open>path.join\<close> and \<^verbatim>\<open>path.resolve\<close> throw a \<^verbatim>\<open>TypeError\<close>.
\<close>

record Collaborators =
  getAbsolutePosition :: "Comment \<Rightarrow> DiffHunk list \<Rightarrow> bool \<Rightarrow> int"
  getPositionInDiff :: "Comment \<Rightarrow> DiffHunk list \<Rightarrow> bool \<Rightarrow> int"
  getDiffLineByPosition :: "DiffHunk list \<Rightarrow> int option \<Rightarrow> DiffLine option"
  getLastDiffLine :: "string \<Rightarrow> DiffLine option"
  workspaceUri :: "string \<Rightarrow> Uri"
  fileUri :: "string \<Rightarrow> Uri"

definition pathTypeError :: error where
  "pathTypeError = Error ''The path argument must be of type string''"

text \<open>
  The editor's \<^verbatim>\<open>new vscode.Position(line, 0)\<close> throws on a negative line. \<open>lineRange\<close> is
  the range \<^verbatim>\<open>new vscode.Range(pos, pos)\<close> of an accepted position; the projections below
  test the line where the source can reach the constructor with a negative one.
\<close>

definition lineRange :: "int \<Rightarrow> Range" where
  "lineRange line = Range line 0 line 0"

definition illegalLine :: error where
  "illegalLine = Error ''Illegal argument: line must be non-negative''"

subsection \<open>\<^verbatim>\<open>getCommentingRanges\<close>\<close>


subsection \<open>\<^verbatim>\<open>workspaceLocalCommentsToCommentThreads\<close>\<close>

text \<open>
  The loop \<^verbatim>\<open>for (let i in sections)\<close>; \<^verbatim>\<open>firstComment.absolutePosition || 0\<close> is zero
  when the position is absent. A group made by \<^verbatim>\<open>groupBy\<close> is never empty. The function
  throws when the first comment of a group has a negative absolute position (in the
  constructor of the position) or no path (in \<^verbatim>\<open>path.join\<close>), and the threads made so far
  are lost with it.
\<close>

fun workspaceLoop ::
  "Collaborators \<Rightarrow> Command option \<Rightarrow> CommentThreadCollapsibleState
     \<Rightarrow> (int option \<times> Comment list) list \<Rightarrow> CommentThread list \<Rightarrow> error + CommentThread list" where
  "workspaceLoop env cmd state [] ret = Inr ret"
| "workspaceLoop env cmd state ((i, commentGroup) # sections) ret =
     (case commentGroup of
        [] \<Rightarrow> workspaceLoop env cmd state sections ret
      | firstComment # others \<Rightarrow>
          if getZeroBased (case absolutePosition firstComment of None \<Rightarrow> 0 | Some p \<Rightarrow> p) < 0
          then Inl illegalLine
          else (case path firstComment of
                  None \<Rightarrow> Inl pathTypeError
                | Some firstPath \<Rightarrow>
                    workspaceLoop env cmd state sections
                      (ret @ [\<lparr>threadId = toString (id firstComment),
                               resource = workspaceUri env firstPath,
                               range = lineRange (getZeroBased
                                         (case absolutePosition firstComment of
                                            None \<Rightarrow> 0 | Some p \<Rightarrow> p)),
                               threadComments =
                                 map (\<lambda>comment. convertToVSCodeComment comment cmd) commentGroup,
                               collapsibleState = state\<rparr>])))"

definition workspaceLocalCommentsToCommentThreads ::
  "Collaborators \<Rightarrow> FileChangeNode \<Rightarrow> Comment list \<Rightarrow> CommentThreadCollapsibleState
     \<Rightarrow> error + CommentThread list" where
  "workspaceLocalCommentsToCommentThreads env fileChange fileComments state =
     (if fileComments = [] then Inr []
      else let sections = groupBy fileComments position;
               cmd = (if status fileChange = DELETE
                      then Some \<lparr>title = ''View Changes'', command = ''pr.viewChanges''\<rparr>
                      else None)
           in workspaceLoop env cmd state (forIn positionIndex sections) [])"

subsection \<open>\<^verbatim>\<open>provideDocumentComments\<close>\<close>





subsection \<open>\<^verbatim>\<open>outdatedCommentsToCommentThreads\<close>\<close>

text \<open>
  The first comment of a group is assigned its absolute position when its original
  position is found in its own hunks; the assignment is to the comment object, so the
  editor comment made from it afterwards carries the assigned position. The constructor
  of the position throws when that position is negative.
\<close>

fun outdatedLoop ::
  "Collaborators \<Rightarrow> FileChangeNode \<Rightarrow> CommentThreadCollapsibleState
     \<Rightarrow> (int option \<times> Comment list) list \<Rightarrow> CommentThread list \<Rightarrow> error + CommentThread list" where
  "outdatedLoop env fileChange state [] ret = Inr ret"
| "outdatedLoop env fileChange state ((i, commentGroup) # sections) ret =
     (case commentGroup of
        [] \<Rightarrow> outdatedLoop env fileChange state sections ret
      | first # others \<Rightarrow>
          (let diffLine = getDiffLineByPosition env
                            (case commentDiffHunks first of None \<Rightarrow> [] | Some hs \<Rightarrow> hs)
                            (originalPosition first);
               firstComment = (case diffLine of
                                 None \<Rightarrow> first
                               | Some l \<Rightarrow> first\<lparr>absolutePosition := Some (newLineNumber l)\<rparr>);
               viewChanges = \<lparr>title = ''View Changes'', command = ''pr.viewChanges''\<rparr>
           in if getZeroBased (case absolutePosition firstComment of None \<Rightarrow> 0 | Some p \<Rightarrow> p) < 0
              then Inl illegalLine
              else outdatedLoop env fileChange state sections
                     (ret @ [\<lparr>threadId = toString (id firstComment),
                              resource = filePath fileChange,
                              range = lineRange (getZeroBased
                                        (case absolutePosition firstComment of
                                           None \<Rightarrow> 0 | Some p \<Rightarrow> p)),
                              threadComments =
                                map (\<lambda>comment. convertToVSCodeComment comment (Some viewChanges))
                                    (firstComment # others),
                              collapsibleState = state\<rparr>])))"

definition outdatedCommentsToCommentThreads ::
  "Collaborators \<Rightarrow> FileChangeNode \<Rightarrow> Comment list \<Rightarrow> CommentThreadCollapsibleState
     \<Rightarrow> error + CommentThread list" where
  "outdatedCommentsToCommentThreads env fileChange fileComments state =
     (if fileComments = [] then Inr []
      else let sections = groupBy fileComments position
           in outdatedLoop env fileChange state (forIn positionIndex sections) [])"

subsection \<open>\<^verbatim>\<open>provideCommentInfoForReviewUri\<close>\<close>








subsection \<open>The loops as maps over the groups\<close>

text \<open>
  The thread that the loop of \<open>workspaceLocalCommentsToCommentThreads\<close> makes from a group
  whose first comment has a path, and the threads of all groups.
\<close>

definition workspaceThread ::
  "Collaborators \<Rightarrow> Command option \<Rightarrow> CommentThreadCollapsibleState
     \<Rightarrow> int option \<times> Comment list \<Rightarrow> CommentThread" where
  "workspaceThread env cmd st e =
     \<lparr>threadId = toString (id (hd (snd e))),
      resource = workspaceUri env (case path (hd (snd e)) of None \<Rightarrow> [] | Some firstPath \<Rightarrow> firstPath),
      range = lineRange (getZeroBased
                (case absolutePosition (hd (snd e)) of None \<Rightarrow> 0 | Some p \<Rightarrow> p)),
      threadComments = map (\<lambda>comment. convertToVSCodeComment comment cmd) (snd e),
      collapsibleState = st\<rparr>"

definition workspaceThreads ::
  "Collaborators \<Rightarrow> FileChangeNode \<Rightarrow> Comment list \<Rightarrow> CommentThreadCollapsibleState
     \<Rightarrow> CommentThread list" where
  "workspaceThreads env fileChange cs st =
     map (workspaceThread env
            (if status fileChange = DELETE
             then Some \<lparr>title = ''View Changes'', command = ''pr.viewChanges''\<rparr> else None) st)
         (forIn positionIndex (groupBy cs position))"

lemma workspaceLoop_Inr:
  "\<forall>e \<in> set es. snd e \<noteq> [] \<Longrightarrow> workspaceLoop env cmd st es ret = Inr ts \<Longrightarrow>
   ts = ret @ map (workspaceThread env cmd st) es"
proof (induction es arbitrary: ret)
  case Nil
  then show ?case by simp
next
  case (Cons e es)
  obtain i g where e: "e = (i, g)" by (cases e)
  with Cons.prems obtain c cs where g: "g = c # cs" by (cases g) auto
  from Cons.prems(2)
  have line: "\<not> getZeroBased (case absolutePosition c of None \<Rightarrow> 0 | Some p \<Rightarrow> p) < 0"
    by (simp add: e g split: if_splits)
  from Cons.prems(2) line obtain firstPath where p: "path c = Some firstPath"
    by (cases "path c") (simp_all add: e g)
  have "ts = (ret @ [workspaceThread env cmd st e]) @ map (workspaceThread env cmd st) es"
  proof (rule Cons.IH)
    show "\<forall>e \<in> set es. snd e \<noteq> []" using Cons.prems(1) by simp
    show "workspaceLoop env cmd st es (ret @ [workspaceThread env cmd st e]) = Inr ts"
      using Cons.prems(2) line by (simp add: e g p workspaceThread_def)
  qed
  then show ?case by simp
qed




lemma groupBy_member:
  "e \<in> set (groupBy xs f) \<Longrightarrow> fst e \<in> f ` set xs \<and> snd e = filter (\<lambda>x. f x = fst e) xs"
  using groupBy_entry [of "fst e" "snd e" xs f] by simp

lemma groupBy_groups_nonempty: "\<forall>e \<in> set (forIn idx (groupBy cs f)). snd e \<noteq> []"
proof
  fix e assume "e \<in> set (forIn idx (groupBy cs f))"
  then have "e \<in> set (groupBy cs f)" by simp
  then have "fst e \<in> f ` set cs" and "snd e = filter (\<lambda>x. f x = fst e) cs"
    by (simp_all add: groupBy_member)
  then show "snd e \<noteq> []"
    by (auto simp: filter_empty_conv)
qed





lemma rawComment_convert [simp]: "rawComment (convertToVSCodeComment c cmd) = c"
  by (simp add: convertToVSCodeComment_def)

lemma raw_convert: "rawComment ` set (map (\<lambda>comment. convertToVSCodeComment comment cmd) g) = set g"
  by (simp add: image_image)


lemma workspace_Inr:
  "workspaceLocalCommentsToCommentThreads env fileChange cs st = Inr ts \<Longrightarrow>
   ts = workspaceThreads env fileChange cs st"
proof (cases "cs = []")
  case True
  moreover assume "workspaceLocalCommentsToCommentThreads env fileChange cs st = Inr ts"
  ultimately show ?thesis
    by (simp add: workspaceLocalCommentsToCommentThreads_def workspaceThreads_def groupBy_def
        forIn_def)
next
  case False
  moreover assume "workspaceLocalCommentsToCommentThreads env fileChange cs st = Inr ts"
  ultimately have "workspaceLoop env
                     (if status fileChange = DELETE
                      then Some \<lparr>title = ''View Changes'', command = ''pr.viewChanges''\<rparr> else None)
                     st (forIn positionIndex (groupBy cs position)) [] = Inr ts"
    by (simp add: workspaceLocalCommentsToCommentThreads_def Let_def)
  from workspaceLoop_Inr [OF groupBy_groups_nonempty this]
  show ?thesis by (simp add: workspaceThreads_def)
qed





section \<open>Refreshing the comments of the review (\<^verbatim>\<open>updateComments\<close>)\<close>

text \<open>
  The provider of the earlier comment API keeps the flat comment list and the local file
  changes (all of them \<^verbatim>\<open>GitFileChangeNode\<close>s here), and reports the difference between two
  projections as an event. Its \<^verbatim>\<open>workspaceLocalCommentsToCommentThreads\<close> is the function
  above with two more arguments, which it hands on to the converter.
  \<^verbatim>\<open>allCommentsToCommentThreads\<close> groups the comments by path (the key of a comment with
  the \<^verbatim>\<open>null\<close> path is the string \<^verbatim>\<open>null\<close>) and projects the groups of the files that
  have a local file change, in the order of \<^verbatim>\<open>for (let file in fileCommentGroups)\<close>.
\<close>

definition pathKey :: "string option \<Rightarrow> string" where
  "pathKey p = (case p of None \<Rightarrow> ''null'' | Some s \<Rightarrow> s)"

fun allCommentsLoop ::
  "Collaborators \<Rightarrow> FileChangeNode list \<Rightarrow> CommentThreadCollapsibleState
     \<Rightarrow> (string \<times> Comment list) list \<Rightarrow> CommentThread list \<Rightarrow> error + CommentThread list" where
  "allCommentsLoop env changes st [] ret = Inr ret"
| "allCommentsLoop env changes st ((file, fileComments) # rest) ret =
     (case filter (\<lambda>fileChange. fileName fileChange = file) changes of
        [] \<Rightarrow> allCommentsLoop env changes st rest ret
      | matchedFile # others \<Rightarrow>
          (case workspaceLocalCommentsToCommentThreads env matchedFile fileComments st of
             Inl e \<Rightarrow> Inl e
           | Inr projected \<Rightarrow> allCommentsLoop env changes st rest (ret @ projected)))"

definition allCommentsToCommentThreads ::
  "Collaborators \<Rightarrow> FileChangeNode list \<Rightarrow> Comment list \<Rightarrow> CommentThreadCollapsibleState
     \<Rightarrow> error + CommentThread list" where
  "allCommentsToCommentThreads env changes cs st =
     (if cs = [] then Inr []
      else allCommentsLoop env changes st
             (forIn stringIndex (groupBy cs (\<lambda>comment. pathKey (path comment)))) [])"

record CommentsProvider =
  providerComments :: "Comment list"
  providerFileChanges :: "FileChangeNode list"

text \<open>
  \<^verbatim>\<open>updateComments\<close>: the event that is fired, if any, or the rejection, and the state
  afterwards. The two events that are fired carry the same three lists. The outcome of
  \<^verbatim>\<open>inDraftMode\<close>, which is awaited while the first event is built, is a parameter. The
  flat list and the comments of the file changes are replaced only when something was
  added, removed or changed.
\<close>

definition updateComments ::
  "Collaborators \<Rightarrow> error + bool \<Rightarrow> CommentsProvider \<Rightarrow> Comment list
     \<Rightarrow> (error + CommentThreadChangedEvent option) \<times> CommentsProvider" where
  "updateComments env draftQuery s cs =
     (case allCommentsToCommentThreads env (providerFileChanges s) (providerComments s) Expanded of
        Inl e \<Rightarrow> (Inl e, s)
      | Inr oldCommentThreads \<Rightarrow>
          (case allCommentsToCommentThreads env (providerFileChanges s) cs Expanded of
             Inl e \<Rightarrow> (Inl e, s)
           | Inr newCommentThreads \<Rightarrow>
               (let event = reconcile oldCommentThreads newCommentThreads
                in if added event \<noteq> [] \<or> removed event \<noteq> [] \<or> changed event \<noteq> []
                   then (case draftQuery of
                           Inl e \<Rightarrow> (Inl e, s)
                         | Inr draft \<Rightarrow>
                             (Inr (Some event),
                              \<lparr>providerComments = cs,
                               providerFileChanges =
                                 map (\<lambda>change. change\<lparr>comments :=
                                        filter (\<lambda>comment. Some (fileName change) = path comment
                                                             \<and> position comment \<noteq> None) cs\<rparr>)
                                     (providerFileChanges s)\<rparr>))
                   else (Inr None, s))))"

subsection \<open>Reconciling a projection with itself\<close>

lemma distinct_filter_self:
  "distinct (map f xs) \<Longrightarrow> x \<in> set xs \<Longrightarrow> filter (\<lambda>y. f y = f x) xs = [x]"
proof (induction xs)
  case Nil
  then show ?case by simp
next
  case (Cons a xs)
  show ?case
  proof (cases "a = x")
    case True
    have "filter (\<lambda>y. f y = f x) xs = []"
      using Cons.prems(1) True by (auto simp: filter_empty_conv image_iff)
    with True show ?thesis by simp
  next
    case False
    with Cons.prems have "x \<in> set xs" by simp
    moreover have "f a \<noteq> f x"
      using Cons.prems(1) \<open>x \<in> set xs\<close> by (auto simp: image_iff)
    ultimately show ?thesis using Cons by simp
  qed
qed

lemma reactionLoop_same: "\<not> reactionLoop rs rs"
  by (induction rs) simp_all

lemma commentEdited_same:
  "distinct (map commentId cs) \<Longrightarrow> c \<in> set cs \<Longrightarrow> \<not> commentEdited cs c"
  by (simp add: commentEdited_def distinct_filter_self reactionLoop_same split: option.splits)

lemma commentsEditedInThread_same:
  "distinct (map commentId cs) \<Longrightarrow> \<not> commentsEditedInThread cs cs"
  by (simp add: commentsEditedInThread_def list_ex_iff commentEdited_same)

lemma removedLoop_filter:
  "removedLoop olds news acc =
     acc @ filter (\<lambda>t. filter (\<lambda>n. threadId n = threadId t) news = []) olds"
  by (induction olds arbitrary: acc) (simp_all add: Let_def)

lemma addedChangedLoop_added:
  "fst (addedChangedLoop news olds (a, c)) =
     a @ map (\<lambda>t. if scheme (resource t) = ''file'' then t\<lparr>collapsibleState := Collapsed\<rparr> else t)
           (filter (\<lambda>t. filter (\<lambda>old. threadId old = threadId t) olds = []) news)"
  by (induction news arbitrary: a c) (simp_all add: Let_def)

text \<open>
  In \<^verbatim>\<open>updateComments\<close>, a new thread that matches exactly one old thread and is not
  changed is left alone: it is not reported as changed, no thread of its id is reported as
  added, and the old thread is not reported as removed.
\<close>

lemma unchanged_thread_untouched:
  assumes match: "filter (\<lambda>old. threadId old = threadId thread) olds = [match]"
    and mem: "thread \<in> set news"
    and same: "\<not> specChanged (threadComments match) (threadComments thread)"
  shows "thread \<notin> set (changed (reconcile olds news))
       \<and> (\<forall>a \<in> set (added (reconcile olds news)). threadId a \<noteq> threadId thread)
       \<and> match \<notin> set (removed (reconcile olds news))"
proof (intro conjI)
  show "thread \<notin> set (changed (reconcile olds news))"
    using reconcile_changed_iff [OF match mem] same by simp
next
  have "match \<in> set (filter (\<lambda>old. threadId old = threadId thread) olds)"
    using match by simp
  then have old: "match \<in> set olds" and tid: "threadId match = threadId thread"
    by simp_all
  have added: "added (reconcile olds news) = fst (addedChangedLoop news olds ([], []))"
    by (simp add: reconcile_def Let_def split: prod.splits)
  show "\<forall>a \<in> set (added (reconcile olds news)). threadId a \<noteq> threadId thread"
  proof
    fix a assume "a \<in> set (added (reconcile olds news))"
    then have "\<forall>old \<in> set olds. threadId old \<noteq> threadId a"
      unfolding added addedChangedLoop_added
      by (auto simp: filter_empty_conv split: if_splits)
    then show "threadId a \<noteq> threadId thread"
      using old tid by metis
  qed
  have "filter (\<lambda>n. threadId n = threadId match) news \<noteq> []"
    using mem tid by (auto simp: filter_empty_conv)
  then show "match \<notin> set (removed (reconcile olds news))"
    by (simp add: reconcile_def Let_def removedLoop_filter split: prod.splits)
qed

lemma addedChangedLoop_same:
  assumes ids: "distinct (map threadId ts)"
    and inner: "\<forall>t \<in> set ts. distinct (map commentId (threadComments t))"
  shows "set news \<subseteq> set ts \<Longrightarrow> addedChangedLoop news ts (a, c) = (a, c)"
proof (induction news)
  case Nil
  show ?case by simp
next
  case (Cons t news)
  then have t: "t \<in> set ts" by simp
  have m: "filter (\<lambda>old. threadId old = threadId t) ts = [t]"
    using ids t by (rule distinct_filter_self)
  have "\<not> commentsEditedInThread (threadComments t) (threadComments t)"
    using inner t by (simp add: commentsEditedInThread_same)
  then show ?case
    using Cons by (simp add: m Let_def)
qed

lemma reconcile_same:
  assumes "distinct (map threadId ts)"
    and "\<forall>t \<in> set ts. distinct (map commentId (threadComments t))"
  shows "reconcile ts ts = \<lparr>added = [], removed = [], changed = []\<rparr>"
proof -
  have "filter (\<lambda>t. filter (\<lambda>n. threadId n = threadId t) ts = []) ts = []"
    by (auto simp: filter_empty_conv)
  then have "removedLoop ts ts [] = []"
    by (simp add: removedLoop_filter)
  moreover have "addedChangedLoop ts ts ([], []) = ([], [])"
    using assms by (rule addedChangedLoop_same) simp
  ultimately show ?thesis
    by (simp add: reconcile_def)
qed

subsection \<open>The projection of comments with unique ids\<close>

text \<open>The raw comment a projected thread is anchored on: its first comment.\<close>

definition threadHead :: "CommentThread \<Rightarrow> Comment" where
  "threadHead t = rawComment (hd (threadComments t))"

lemma forIn_group_member:
  "e \<in> set (forIn idx (groupBy xs f)) \<Longrightarrow>
   snd e = filter (\<lambda>x. f x = fst e) xs \<and> snd e \<noteq> [] \<and> hd (snd e) \<in> set xs \<and> f (hd (snd e)) = fst e"
proof -
  assume e: "e \<in> set (forIn idx (groupBy xs f))"
  then have g: "snd e = filter (\<lambda>x. f x = fst e) xs"
    by (simp add: groupBy_member)
  have ne: "snd e \<noteq> []"
    using e groupBy_groups_nonempty by blast
  then have "hd (snd e) \<in> set (filter (\<lambda>x. f x = fst e) xs)"
    using g hd_in_set by metis
  then show ?thesis using g ne by simp
qed

lemma workspaceThread_head:
  "snd e \<noteq> [] \<Longrightarrow> threadHead (workspaceThread env cmd st e) = hd (snd e)"
  by (simp add: threadHead_def workspaceThread_def hd_map)

lemma workspaceThreads_shape:
  assumes "t \<in> set (workspaceThreads env m fcs st)"
  shows "threadId t = toString (id (threadHead t))
       \<and> threadHead t \<in> set fcs
       \<and> map commentId (threadComments t) = map (\<lambda>c. toString (id c)) (map rawComment (threadComments t))
       \<and> (\<exists>k. map rawComment (threadComments t) = filter (\<lambda>c. position c = k) fcs)"
proof -
  from assms obtain e cmd where e: "e \<in> set (forIn positionIndex (groupBy fcs position))"
    and t: "t = workspaceThread env cmd st e"
    unfolding workspaceThreads_def by auto
  note g = forIn_group_member [OF e]
  have ne: "snd e \<noteq> []"
    using g by blast
  have tid: "threadId t = toString (id (hd (snd e)))"
    by (simp add: t workspaceThread_def)
  have raws: "map rawComment (threadComments t) = snd e"
    by (simp add: t workspaceThread_def comp_def)
  have hd: "threadHead t = hd (snd e)"
    unfolding t by (rule workspaceThread_head [OF ne])
  have cids: "map commentId (threadComments t) = map (\<lambda>c. toString (id c)) (snd e)"
    by (simp add: t workspaceThread_def comp_def convertToVSCodeComment_def)
  show ?thesis
    using g by (auto simp: tid hd raws cids)
qed

lemma workspaceThreads_positions_distinct:
  "distinct (map (\<lambda>t. position (threadHead t)) (workspaceThreads env m fcs st))"
proof -
  let ?es = "forIn positionIndex (groupBy fcs position)"
  let ?cmd = "if status m = DELETE
              then Some \<lparr>title = ''View Changes'', command = ''pr.viewChanges''\<rparr> else None"
  have "map (\<lambda>t. position (threadHead t)) (workspaceThreads env m fcs st) = map fst ?es"
    unfolding workspaceThreads_def map_map
  proof (rule map_cong [OF refl])
    fix e assume "e \<in> set ?es"
    from forIn_group_member [OF this]
    have ne: "snd e \<noteq> []" and pos: "position (hd (snd e)) = fst e"
      by blast+
    show "((\<lambda>t. position (threadHead t)) \<circ> workspaceThread env ?cmd st) e = fst e"
      by (simp add: workspaceThread_head [OF ne] pos)
  qed
  then show ?thesis
    by (simp add: forIn_distinct_keys groupBy_distinct)
qed

text \<open>
  The threads contributed by one group of \<^verbatim>\<open>fileCommentGroups\<close>, and the threads of all
  groups, when no projection throws.
\<close>

definition fileThreads ::
  "Collaborators \<Rightarrow> FileChangeNode list \<Rightarrow> CommentThreadCollapsibleState
     \<Rightarrow> string \<times> Comment list \<Rightarrow> CommentThread list" where
  "fileThreads env changes st e =
     (case filter (\<lambda>fileChange. fileName fileChange = fst e) changes of
        [] \<Rightarrow> []
      | matchedFile # others \<Rightarrow> workspaceThreads env matchedFile (snd e) st)"

definition allThreads ::
  "Collaborators \<Rightarrow> FileChangeNode list \<Rightarrow> Comment list \<Rightarrow> CommentThreadCollapsibleState
     \<Rightarrow> CommentThread list" where
  "allThreads env changes cs st =
     concat (map (fileThreads env changes st)
               (forIn stringIndex (groupBy cs (\<lambda>comment. pathKey (path comment)))))"

lemma allCommentsLoop_Inr:
  "allCommentsLoop env changes st es ret = Inr ts \<Longrightarrow>
   ts = ret @ concat (map (fileThreads env changes st) es)"
proof (induction es arbitrary: ret)
  case Nil
  then show ?case by simp
next
  case (Cons e es)
  obtain name fcs where e: "e = (name, fcs)" by (cases e)
  show ?case
  proof (cases "filter (\<lambda>fileChange. fileName fileChange = name) changes")
    case Nil
    then show ?thesis
      using Cons.prems Cons.IH [of ret] by (simp add: e fileThreads_def)
  next
    case (Cons matchedFile others)
    from Cons.prems obtain projected where
      p: "workspaceLocalCommentsToCommentThreads env matchedFile fcs st = Inr projected"
      and rest: "allCommentsLoop env changes st es (ret @ projected) = Inr ts"
      by (auto simp: e Cons split: sum.splits)
    have "projected = workspaceThreads env matchedFile fcs st"
      using p by (rule workspace_Inr)
    with Cons.IH [OF rest] Cons show ?thesis
      by (simp add: e fileThreads_def)
  qed
qed

lemma allComments_Inr:
  "allCommentsToCommentThreads env changes cs st = Inr ts \<Longrightarrow> ts = allThreads env changes cs st"
proof (cases "cs = []")
  case True
  moreover assume "allCommentsToCommentThreads env changes cs st = Inr ts"
  ultimately show ?thesis
    by (simp add: allCommentsToCommentThreads_def allThreads_def groupBy_def forIn_def)
next
  case False
  moreover assume "allCommentsToCommentThreads env changes cs st = Inr ts"
  ultimately have "allCommentsLoop env changes st
                     (forIn stringIndex (groupBy cs (\<lambda>comment. pathKey (path comment)))) [] = Inr ts"
    by (simp add: allCommentsToCommentThreads_def)
  from allCommentsLoop_Inr [OF this] show ?thesis
    by (simp add: allThreads_def)
qed

lemma fileThreads_shape:
  assumes e: "e \<in> set (forIn stringIndex (groupBy cs (\<lambda>comment. pathKey (path comment))))"
    and t: "t \<in> set (fileThreads env changes st e)"
  shows "threadId t = toString (id (threadHead t))
       \<and> threadHead t \<in> set cs
       \<and> pathKey (path (threadHead t)) = fst e
       \<and> map commentId (threadComments t) = map (\<lambda>c. toString (id c)) (map rawComment (threadComments t))
       \<and> (\<exists>k. map rawComment (threadComments t)
                 = filter (\<lambda>c. position c = k) (filter (\<lambda>c. pathKey (path c) = fst e) cs))"
proof -
  from t obtain m where
    "t \<in> set (workspaceThreads env m (snd e) st)"
    by (auto simp: fileThreads_def split: list.splits)
  note w = workspaceThreads_shape [OF this]
  have g: "snd e = filter (\<lambda>c. pathKey (path c) = fst e) cs"
    using forIn_group_member [OF e] by simp
  from w have "threadHead t \<in> set (filter (\<lambda>c. pathKey (path c) = fst e) cs)"
    by (simp add: g)
  then have "threadHead t \<in> set cs" and "pathKey (path (threadHead t)) = fst e"
    by simp_all
  then show ?thesis
    using w by (simp add: g)
qed

lemma distinct_concat_keyed:
  assumes "distinct (map fst es)"
    and "\<And>e. e \<in> set es \<Longrightarrow> distinct (h e)"
    and "\<And>e x. e \<in> set es \<Longrightarrow> x \<in> set (h e) \<Longrightarrow> fst x = fst e"
  shows "distinct (concat (map h es))"
  using assms
proof (induction es)
  case Nil
  show ?case by simp
next
  case (Cons e es)
  have rest: "distinct (concat (map h es))"
    using Cons by simp
  have here: "distinct (h e)"
    using Cons.prems(2) by simp
  have apart: "set (h e) \<inter> set (concat (map h es)) = {}"
  proof (rule ccontr)
    assume "set (h e) \<inter> set (concat (map h es)) \<noteq> {}"
    then obtain x e' where x: "x \<in> set (h e)" and e': "e' \<in> set es" and x': "x \<in> set (h e')"
      by auto
    then have "fst e = fst e'"
      using Cons.prems(3) [of e x] Cons.prems(3) [of e' x] by simp
    moreover have "fst e \<notin> fst ` set es"
      using Cons.prems(1) by simp
    ultimately show False using e' by blast
  qed
  show ?case
    using rest here apart by simp
qed

lemma allThreads_keys_distinct:
  "distinct (map (\<lambda>t. (pathKey (path (threadHead t)), position (threadHead t)))
       (allThreads env changes cs st))"
proof -
  let ?es = "forIn stringIndex (groupBy cs (\<lambda>comment. pathKey (path comment)))"
  let ?key = "\<lambda>t. (pathKey (path (threadHead t)), position (threadHead t))"
  let ?h = "\<lambda>e. map ?key (fileThreads env changes st e)"
  have keyed: "\<And>e. e \<in> set ?es \<Longrightarrow> ?h e = map (\<lambda>t. (fst e, position (threadHead t)))
                                            (fileThreads env changes st e)"
    by (rule map_cong [OF refl]) (simp add: fileThreads_shape)
  have inner: "\<And>e. distinct (map (\<lambda>t. position (threadHead t)) (fileThreads env changes st e))"
    by (simp add: fileThreads_def workspaceThreads_positions_distinct split: list.splits)
  have "distinct (concat (map ?h ?es))"
  proof (rule distinct_concat_keyed)
    show "distinct (map fst ?es)"
      by (simp add: forIn_distinct_keys groupBy_distinct)
  next
    fix e assume e: "e \<in> set ?es"
    have "distinct (map (Pair (fst e)) (map (\<lambda>t. position (threadHead t))
                                            (fileThreads env changes st e)))"
      using inner [of e] by (simp add: distinct_map inj_on_def)
    then show "distinct (?h e)"
      by (simp add: keyed [OF e] comp_def)
  next
    fix e x assume e: "e \<in> set ?es" and "x \<in> set (?h e)"
    then show "fst x = fst e"
      by (auto simp: keyed [OF e])
  qed
  then show ?thesis
    by (simp add: allThreads_def map_concat comp_def)
qed

lemma allThreads_shape:
  assumes "t \<in> set (allThreads env changes cs st)"
  shows "threadId t = toString (id (threadHead t))
       \<and> threadHead t \<in> set cs
       \<and> map commentId (threadComments t) = map (\<lambda>c. toString (id c)) (map rawComment (threadComments t))
       \<and> (\<exists>k p. map rawComment (threadComments t)
                 = filter (\<lambda>c. position c = k) (filter (\<lambda>c. pathKey (path c) = p) cs))"
proof -
  from assms obtain e where
    e: "e \<in> set (forIn stringIndex (groupBy cs (\<lambda>comment. pathKey (path comment))))"
    and t: "t \<in> set (fileThreads env changes st e)"
    by (auto simp: allThreads_def)
  from fileThreads_shape [OF e t] show ?thesis by blast
qed

lemma allThreads_threadIds_distinct:
  assumes "distinct (map id cs)"
  shows "distinct (map threadId (allThreads env changes cs st))"
proof -
  let ?P = "allThreads env changes cs st"
  have "distinct (map (\<lambda>c. (pathKey (path c), position c)) (map threadHead ?P))"
    using allThreads_keys_distinct [of env changes cs st] by (simp add: comp_def)
  then have "distinct (map threadHead ?P)
           \<and> inj_on (\<lambda>c. (pathKey (path c), position c)) (set (map threadHead ?P))"
    by (simp only: distinct_map)
  then have heads: "distinct (map threadHead ?P)"
    by (rule conjunct1)
  have sub: "set (map threadHead ?P) \<subseteq> set cs"
    using allThreads_shape by fastforce
  have "inj_on id (set cs)"
    using assms by (simp add: distinct_map)
  then have "inj_on (\<lambda>c. toString (id c)) (set (map threadHead ?P))"
    using sub by (auto simp: inj_on_def)
  with heads have "distinct (map (\<lambda>c. toString (id c)) (map threadHead ?P))"
    by (simp only: distinct_map [of "\<lambda>c. toString (id c)" "map threadHead ?P"] simp_thms)
  moreover have "map threadId ?P = map (\<lambda>c. toString (id c)) (map threadHead ?P)"
    unfolding map_map by (rule map_cong [OF refl]) (simp add: allThreads_shape)
  ultimately show ?thesis by (simp only:)
qed

lemma allThreads_commentIds_distinct:
  assumes "distinct (map id cs)"
    and "t \<in> set (allThreads env changes cs st)"
  shows "distinct (map commentId (threadComments t))"
proof -
  from allThreads_shape [OF assms(2)] obtain k p where
    cids: "map commentId (threadComments t) = map (\<lambda>c. toString (id c)) (map rawComment (threadComments t))"
    and raws: "map rawComment (threadComments t)
                 = filter (\<lambda>c. position c = k) (filter (\<lambda>c. pathKey (path c) = p) cs)"
    by blast
  have "distinct (map id (filter (\<lambda>c. position c = k) (filter (\<lambda>c. pathKey (path c) = p) cs)))"
    using assms(1) by (simp add: distinct_map_filter)
  then have "distinct (map (\<lambda>c. toString (id c))
                         (filter (\<lambda>c. position c = k) (filter (\<lambda>c. pathKey (path c) = p) cs)))"
    by (simp add: distinct_map inj_on_def)
  then show ?thesis
    by (simp add: cids raws)
qed

lemma allCommentsLoop_ignores_file_comments:
  "allCommentsLoop env (map (\<lambda>change. change\<lparr>comments := F change\<rparr>) changes) st es ret
     = allCommentsLoop env changes st es ret"
proof (induction es arbitrary: ret)
  case Nil
  show ?case by simp
next
  case (Cons e es)
  obtain name fcs where e: "e = (name, fcs)" by (cases e)
  have commute: "filter (\<lambda>fileChange. fileName fileChange = name)
            (map (\<lambda>change. change\<lparr>comments := F change\<rparr>) changes)
          = map (\<lambda>change. change\<lparr>comments := F change\<rparr>)
              (filter (\<lambda>fileChange. fileName fileChange = name) changes)"
    by (simp add: filter_map comp_def)
  show ?case
  proof (cases "filter (\<lambda>fileChange. fileName fileChange = name) changes")
    case Nil
    then show ?thesis
      by (simp add: e commute Cons.IH)
  next
    case (Cons matchedFile others)
    have "workspaceLocalCommentsToCommentThreads env (matchedFile\<lparr>comments := F matchedFile\<rparr>) fcs st
            = workspaceLocalCommentsToCommentThreads env matchedFile fcs st"
      by (simp add: workspaceLocalCommentsToCommentThreads_def)
    then show ?thesis
      by (simp add: e commute Cons Cons.IH split: sum.splits)
  qed
qed

lemma allComments_ignores_file_comments:
  "allCommentsToCommentThreads env (map (\<lambda>change. change\<lparr>comments := F change\<rparr>) changes) cs st
     = allCommentsToCommentThreads env changes cs st"
  by (simp add: allCommentsToCommentThreads_def allCommentsLoop_ignores_file_comments)

text \<open>
  \<open>updateComments\<close> is idempotent on comments with unique ids: after a call that was not
  rejected, a second call with the same comment list fires no event and leaves the state
  as the first call left it.
\<close>

lemma updateComments_idempotent:
  assumes ids: "distinct (map id cs)"
    and first: "fst (updateComments env draftQuery s cs) = Inr event"
  shows "updateComments env draftQuery' (snd (updateComments env draftQuery s cs)) cs
           = (Inr None, snd (updateComments env draftQuery s cs))"
proof -
  from first obtain olds where
    old: "allCommentsToCommentThreads env (providerFileChanges s) (providerComments s) Expanded
            = Inr olds"
    by (auto simp: updateComments_def split: sum.splits)
  from first old obtain news where
    new: "allCommentsToCommentThreads env (providerFileChanges s) cs Expanded = Inr news"
    by (auto simp: updateComments_def split: sum.splits)
  have news: "news = allThreads env (providerFileChanges s) cs Expanded"
    using new by (rule allComments_Inr)
  have none: "reconcile news news = \<lparr>added = [], removed = [], changed = []\<rparr>"
    unfolding news using ids
    by (intro reconcile_same allThreads_threadIds_distinct ballI allThreads_commentIds_distinct)
  let ?event = "reconcile olds news"
  show ?thesis
  proof (cases "added ?event \<noteq> [] \<or> removed ?event \<noteq> [] \<or> changed ?event \<noteq> []")
    case False
    then have unchanged: "\<And>q. updateComments env q s cs = (Inr None, s)"
      by (simp add: updateComments_def old new Let_def)
    show ?thesis
      by (simp add: unchanged)
  next
    case True
    with first old new obtain draft where draft: "draftQuery = Inr draft"
      by (cases draftQuery) (auto simp: updateComments_def Let_def)
    define s1 where
      "s1 = \<lparr>providerComments = cs,
             providerFileChanges =
               map (\<lambda>change. change\<lparr>comments :=
                      filter (\<lambda>comment. Some (fileName change) = path comment
                                           \<and> position comment \<noteq> None) cs\<rparr>)
                   (providerFileChanges s)\<rparr>"
    from True have state: "snd (updateComments env draftQuery s cs) = s1"
      by (simp add: updateComments_def old new draft Let_def s1_def)
    have same: "allCommentsToCommentThreads env (providerFileChanges s1) (providerComments s1) Expanded
                  = Inr news"
      by (simp add: s1_def allComments_ignores_file_comments new)
    have "updateComments env draftQuery' s1 cs = (Inr None, s1)"
      using same none by (simp add: updateComments_def Let_def s1_def)
    then show ?thesis by (simp add: state)
  qed
qed

subsection \<open>Example data\<close>

text \<open>
  A comment on \<^verbatim>\<open>a.ts\<close> with the given id, position, original position and body, and
  collaborators that resolve a position \<open>p\<close> to the line \<open>p + 10\<close> and an absent position
  to \<open>-1\<close>.
\<close>

definition exampleComment :: "nat \<Rightarrow> int option \<Rightarrow> int option \<Rightarrow> string \<Rightarrow> Comment" where
  "exampleComment n p orig text =
     \<lparr>id = n, pullRequestReviewId = Some 7, path = Some ''a.ts'', position = p,
      originalPosition = orig, commitId = None, originalCommitId = None, body = text,
      diffHunk = [], commentDiffHunks = None, absolutePosition = None, reactions = None,
      graphNodeId = [], canEdit = True, canDelete = True, isDraft = False\<rparr>"

definition exampleEnv :: Collaborators where
  "exampleEnv =
     \<lparr>getAbsolutePosition = (\<lambda>c hunks isBase. case position c of None \<Rightarrow> -1 | Some p \<Rightarrow> p + 10),
      getPositionInDiff = (\<lambda>c hunks isBase. case position c of None \<Rightarrow> -1 | Some p \<Rightarrow> p),
      getDiffLineByPosition = (\<lambda>hunks p. None),
      getLastDiffLine = (\<lambda>hunk. None),
      workspaceUri = (\<lambda>p. \<lparr>scheme = ''file'', uriPath = p, query = EmptyQuery\<rparr>),
      fileUri = (\<lambda>p. \<lparr>scheme = ''file'', uriPath = p, query = EmptyQuery\<rparr>)\<rparr>"

definition exampleComments :: "Comment list" where
  "exampleComments =
     [exampleComment 11 (Some 3) (Some 3) ''first'',
      exampleComment 12 (Some (-11)) (Some 4) ''second'',
      exampleComment 13 (Some 3) (Some 3) ''reply'']"

definition exampleGitFile :: FileChangeNode where
  "exampleGitFile = exampleFile\<lparr>status := MODIFY, comments := exampleComments, sha := Some ''c1''\<rparr>"




definition exampleThread :: "string \<Rightarrow> Comment list \<Rightarrow> CommentThread" where
  "exampleThread tid cs =
     \<lparr>threadId = tid, resource = exampleUri, range = lineRange 0,
      threadComments = map (\<lambda>c. convertToVSCodeComment c None) cs,
      collapsibleState = Expanded\<rparr>"

lemma reconcile_changed_iff_example:
  "exampleThread ''11'' [exampleComment 11 (Some 3) (Some 3) ''edited'']
     \<in> set (changed (reconcile [exampleThread ''11'' [exampleComment 11 (Some 3) (Some 3) ''first'']]
                               [exampleThread ''11'' [exampleComment 11 (Some 3) (Some 3) ''edited'']]))
   \<and> exampleThread ''11'' [exampleComment 11 (Some 3) (Some 3) ''first'']
     \<notin> set (changed (reconcile [exampleThread ''11'' [exampleComment 11 (Some 3) (Some 3) ''first'']]
                               [exampleThread ''11'' [exampleComment 11 (Some 3) (Some 3) ''first'']]))"
proof -
  let ?old = "exampleThread ''11'' [exampleComment 11 (Some 3) (Some 3) ''first'']"
  let ?new = "exampleThread ''11'' [exampleComment 11 (Some 3) (Some 3) ''edited'']"
  have m1: "filter (\<lambda>old. threadId old = threadId ?new) [?old] = [?old]"
    by (simp add: exampleThread_def)
  have m2: "filter (\<lambda>old. threadId old = threadId ?old) [?old] = [?old]"
    by simp
  have s1: "specChanged (threadComments ?old) (threadComments ?new)"
    by (simp add: specChanged_def exampleThread_def convertToVSCodeComment_def exampleComment_def)
  have s2: "\<not> specChanged (threadComments ?old) (threadComments ?old)"
    by (simp add: specChanged_def exampleThread_def convertToVSCodeComment_def exampleComment_def
        reactionListsDiffer_def)
  show ?thesis
    using reconcile_changed_iff [OF m1, of "[?new]"] reconcile_changed_iff [OF m2, of "[?old]"]
      s1 s2
    by simp
qed


text \<open>
  C5. Two outdated comments of a file, with no position and with the original positions 3
  and 5, are put by \<open>outdatedCommentsToCommentThreads\<close> into one and the same thread: the
  outdated view groups by \<^verbatim>\<open>position\<close>, which is null for every outdated comment, and not
  by \<^verbatim>\<open>originalPosition\<close>.
\<close>

theorem outdated_threads_group_by_position:
  "map_sum (\<lambda>e. e) (map (\<lambda>t. map (\<lambda>c. originalPosition (rawComment c)) (threadComments t)))
     (outdatedCommentsToCommentThreads exampleEnv exampleGitFile
        [exampleComment 11 None (Some 3) ''first'', exampleComment 12 None (Some 5) ''second'']
        Expanded)
   = Inr [[Some 3, Some 5]]"
  by code_simp


text \<open>
  A comment with a negative absolute position is not left out by that projection either:
  the constructor of the position throws on it.
\<close>

lemma workspace_projection_rejects_negative_line:
  "workspaceLocalCommentsToCommentThreads exampleEnv exampleGitFile
     [(exampleComment 12 (Some 4) (Some 4) ''second'')\<lparr>absolutePosition := Some (-1)\<rparr>] Collapsed
     = Inl illegalLine"
  by code_simp

section \<open>Live threads of the comment controller\<close>

text \<open>
  The threads created through \<^verbatim>\<open>commentController.createCommentThread\<close> are objects of
  the editor. They are kept in a store; a reference to a live thread is its index in the
  store. \<^verbatim>\<open>thread.dispose()\<close> is recorded in the list of disposal calls, in call order.
  The accept-input and additional commands of a thread are not part of the model.
\<close>

type_synonym threadRef = nat

record Host =
  liveThreads :: "CommentThread list"
  disposeCalls :: "threadRef list"

definition getThread :: "Host \<Rightarrow> threadRef \<Rightarrow> CommentThread option" where
  "getThread h r = (if r < length (liveThreads h) then Some (liveThreads h ! r) else None)"

definition createCommentThread :: "Host \<Rightarrow> CommentThread \<Rightarrow> threadRef \<times> Host" where
  "createCommentThread h t = (length (liveThreads h), h\<lparr>liveThreads := liveThreads h @ [t]\<rparr>)"

definition dispose :: "Host \<Rightarrow> threadRef \<Rightarrow> Host" where
  "dispose h r = h\<lparr>disposeCalls := disposeCalls h @ [r]\<rparr>"

definition setComments :: "Host \<Rightarrow> threadRef \<Rightarrow> VSComment list \<Rightarrow> Host" where
  "setComments h r cs =
     (case getThread h r of
        None \<Rightarrow> h
      | Some t \<Rightarrow> h\<lparr>liveThreads := (liveThreads h)[r := t\<lparr>threadComments := cs\<rparr>]\<rparr>)"

text \<open>
  \<^verbatim>\<open>getEditCommand\<close> and \<^verbatim>\<open>getDeleteCommand\<close> of \<^verbatim>\<open>github/commands\<close>: the command with
  its title and command id. The arguments of the command (the handler, the thread and the
  comment) are not kept.
\<close>

definition getEditCommand :: Command where
  "getEditCommand = \<lparr>title = ''Edit Comment'', command = ''pr.editComment''\<rparr>"

definition getDeleteCommand :: Command where
  "getDeleteCommand = \<lparr>title = ''Delete Comment'', command = ''pr.deleteComment''\<rparr>"

text \<open>
  The body of the loop \<^verbatim>\<open>comments.forEach\<close> of \<^verbatim>\<open>updatePRorReviewCommentThreads\<close>: a
  comment that may be edited gets its edit command, one that may be deleted its delete
  command.
\<close>

definition withCommands :: "VSComment \<Rightarrow> VSComment" where
  "withCommands comment =
     comment\<lparr>editCommand := (if canEdit (rawComment comment) then Some getEditCommand
                              else editCommand comment),
             deleteCommand := (if canDelete (rawComment comment) then Some getDeleteCommand
                                else deleteCommand comment)\<rparr>"

text \<open>
  Modelled from the spec: \<^verbatim>\<open>createVSCodeCommentThread\<close> of \<^verbatim>\<open>github/utils\<close> is not in the
  sources at hand. It makes the projected thread a live object of the controller, as the
  loop of \<^verbatim>\<open>updatePRorReviewCommentThreads\<close> does in place: it creates the thread with the
  id, resource and range, gives every comment that may be edited or deleted its command,
  and copies the comments and the collapsible state.
\<close>

definition createVSCodeCommentThread :: "Host \<Rightarrow> CommentThread \<Rightarrow> threadRef \<times> Host" where
  "createVSCodeCommentThread h thread =
     createCommentThread h (thread\<lparr>threadComments := map withCommands (threadComments thread)\<rparr>)"

section \<open>The pull request node (\<^verbatim>\<open>PRNode\<close>)\<close>

record PRNode =
  host :: Host
  fileChangeCommentThreads :: "(string, threadRef list) dict"

text \<open>
  \<^verbatim>\<open>PRNode.createCommentThread\<close>: every given thread is made live, and the list of the new
  live threads becomes the entry of the file.
\<close>

fun createThreadsLoop :: "Host \<Rightarrow> CommentThread list \<Rightarrow> threadRef list \<Rightarrow> threadRef list \<times> Host" where
  "createThreadsLoop h [] refs = (refs, h)"
| "createThreadsLoop h (thread # rest) refs =
     (let (r, h') = createVSCodeCommentThread h thread in createThreadsLoop h' rest (refs @ [r]))"

definition createCommentThreads :: "PRNode \<Rightarrow> string \<Rightarrow> CommentThread list \<Rightarrow> PRNode" where
  "createCommentThreads node name commentThreads =
     (let (refs, h) = createThreadsLoop (host node) commentThreads []
      in node\<lparr>host := h,
              fileChangeCommentThreads := dictSet (fileChangeCommentThreads node) name refs\<rparr>)"

subsection \<open>\<^verbatim>\<open>PRNode.updateFileChangeCommentThreads\<close>\<close>

text \<open>
  \<^verbatim>\<open>newCommentThreads && newCommentThreads.filter(...)\<close>: the parameter is an array, and an
  array is truthy even when empty, so the value is always the filtered array and never
  \<^verbatim>\<open>undefined\<close>.
\<close>

definition matchingThreadsOf :: "CommentThread list \<Rightarrow> CommentThread \<Rightarrow> CommentThread list option" where
  "matchingThreadsOf newCommentThreads thread =
     Some (filter (\<lambda>newThread. threadId newThread = threadId thread) newCommentThreads)"

text \<open>
  The first loop, under the source comment ``No current threads match old thread, it has
  been removed'': the old thread is disposed when \<^verbatim>\<open>matchingThreads !== undefined\<close>.
\<close>

fun removeOldLoop :: "Host \<Rightarrow> threadRef list \<Rightarrow> CommentThread list \<Rightarrow> Host" where
  "removeOldLoop h [] newCommentThreads = h"
| "removeOldLoop h (r # rest) newCommentThreads =
     (case getThread h r of
        None \<Rightarrow> removeOldLoop h rest newCommentThreads
      | Some thread \<Rightarrow>
          (let matchingThreads = matchingThreadsOf newCommentThreads thread
           in if matchingThreads \<noteq> None
              then removeOldLoop (dispose h r) rest newCommentThreads
              else removeOldLoop h rest newCommentThreads))"

text \<open>The old threads, as references, that have the id of a new thread.\<close>

definition matchingRefs :: "Host \<Rightarrow> threadRef list \<Rightarrow> CommentThread \<Rightarrow> threadRef list" where
  "matchingRefs h oldCommentThreads thread =
     filter (\<lambda>r. case getThread h r of None \<Rightarrow> False
                  | Some oldComment \<Rightarrow> threadId oldComment = threadId thread) oldCommentThreads"

text \<open>
  \<^verbatim>\<open>matchingCommentThread.forEach(match => ...)\<close>: a match takes the comments of the new
  thread when its length differs or the comments of the first match were edited. The
  comments of the first match are read from the store at every step.
\<close>

fun updateMatchesLoop :: "Host \<Rightarrow> threadRef list \<Rightarrow> threadRef \<Rightarrow> CommentThread \<Rightarrow> Host" where
  "updateMatchesLoop h [] first thread = h"
| "updateMatchesLoop h (r # rest) first thread =
     (case (getThread h r, getThread h first) of
        (Some match, Some firstMatch) \<Rightarrow>
          if length (threadComments match) \<noteq> length (threadComments thread)
             \<or> commentsEditedInThread (threadComments firstMatch) (threadComments thread)
          then updateMatchesLoop (setComments h r (threadComments thread)) rest first thread
          else updateMatchesLoop h rest first thread
      | _ \<Rightarrow> updateMatchesLoop h rest first thread)"

fun updateNewLoop ::
  "Host \<Rightarrow> threadRef list \<Rightarrow> CommentThread list \<Rightarrow> CommentThread list \<Rightarrow> CommentThread list \<times> Host" where
  "updateNewLoop h oldCommentThreads [] addedThreads = (addedThreads, h)"
| "updateNewLoop h oldCommentThreads (thread # rest) addedThreads =
     (let matchingCommentThread = matchingRefs h oldCommentThreads thread;
          addedThreads' = (if length matchingCommentThread = 0
                    then addedThreads @ [if scheme (resource thread) = ''file''
                                  then thread\<lparr>collapsibleState := Collapsed\<rparr> else thread]
                    else addedThreads);
          h' = (case matchingCommentThread of
                  [] \<Rightarrow> h
                | first # others \<Rightarrow> updateMatchesLoop h matchingCommentThread first thread)
      in updateNewLoop h' oldCommentThreads rest addedThreads')"

definition updateFileChangeCommentThreads ::
  "PRNode \<Rightarrow> threadRef list \<Rightarrow> CommentThread list \<Rightarrow> string \<Rightarrow> PRNode" where
  "updateFileChangeCommentThreads node oldCommentThreads newCommentThreads newFileName =
     (let h = removeOldLoop (host node) oldCommentThreads newCommentThreads
      in if newCommentThreads \<noteq> []
         then (let (addedThreads, h') = updateNewLoop h oldCommentThreads newCommentThreads []
               in if addedThreads \<noteq> []
                  then createCommentThreads (node\<lparr>host := h'\<rparr>) newFileName addedThreads
                  else node\<lparr>host := h'\<rparr>)
         else node\<lparr>host := h\<rparr>)"

text \<open>
  A node that shows the file \<^verbatim>\<open>a.ts\<close> with one live thread, and the projection of the same
  comments once more.
\<close>

definition exampleProjection :: "CommentThread list" where
  "exampleProjection = [exampleThread ''11'' [exampleComment 11 (Some 3) (Some 3) ''first'']]"

definition exampleNode :: PRNode where
  "exampleNode =
     \<lparr>host = \<lparr>liveThreads = exampleProjection, disposeCalls = []\<rparr>,
      fileChangeCommentThreads = [(''a.ts'', [0])]\<rparr>"

text \<open>
  C1. In \<open>PRNode.updateFileChangeCommentThreads\<close> the old thread with id 11 is disposed
  although the new projection holds a thread with the same id: the test
  \<^verbatim>\<open>matchingThreads !== undefined\<close> holds for every old thread.
\<close>

theorem matched_old_thread_is_disposed:
  "disposeCalls (host (updateFileChangeCommentThreads exampleNode [0] exampleProjection ''a.ts'')) = [0]
   \<and> map threadId exampleProjection = [''11'']
   \<and> map_option threadId (getThread (host exampleNode) 0) = Some ''11''"
  by code_simp

text \<open>
  C3. Running \<open>PRNode.updateFileChangeCommentThreads\<close> twice with the same projection: the
  first run leaves the thread of the file in place, and the second run adds and changes
  nothing but calls \<^verbatim>\<open>dispose\<close> once more.
\<close>

theorem second_pass_disposes_again:
  "(let once = updateFileChangeCommentThreads exampleNode [0] exampleProjection ''a.ts'';
        twice = updateFileChangeCommentThreads once [0] exampleProjection ''a.ts''
    in fileChangeCommentThreads once = [(''a.ts'', [0])]
       \<and> liveThreads (host twice) = liveThreads (host once)
       \<and> fileChangeCommentThreads twice = fileChangeCommentThreads once
       \<and> disposeCalls (host once) = [0]
       \<and> disposeCalls (host twice) = [0, 0])"
  by code_simp

text \<open>
  A node whose file shows one live thread with a comment and a reply, and the projection
  of the same two comments.
\<close>

definition exampleReplyThread :: CommentThread where
  "exampleReplyThread =
     exampleThread ''11'' [exampleComment 11 (Some 3) (Some 3) ''first'',
                           exampleComment 13 (Some 3) (Some 3) ''reply'']"

definition exampleReplyNode :: PRNode where
  "exampleReplyNode =
     \<lparr>host = \<lparr>liveThreads = [exampleReplyThread], disposeCalls = []\<rparr>,
      fileChangeCommentThreads = [(''a.ts'', [0])]\<rparr>"

text \<open>
  C4. In \<open>PRNode.updateFileChangeCommentThreads\<close> the live thread and the new thread of its
  id hold the same two comments, and \<open>commentsEditedInThread\<close> finds no edit. The comments
  of the live thread and the entry of the file stay as they were, but the thread is not
  left untouched: \<^verbatim>\<open>dispose\<close> is called on it.
\<close>

theorem unchanged_matched_thread_is_disposed:
  "getThread (host exampleReplyNode) 0 = Some exampleReplyThread
   \<and> \<not> commentsEditedInThread (threadComments exampleReplyThread) (threadComments exampleReplyThread)
   \<and> liveThreads (host (updateFileChangeCommentThreads exampleReplyNode [0] [exampleReplyThread]
                          ''a.ts'')) = [exampleReplyThread]
   \<and> fileChangeCommentThreads (updateFileChangeCommentThreads exampleReplyNode [0]
                                 [exampleReplyThread] ''a.ts'') = [(''a.ts'', [0])]
   \<and> disposeCalls (host (updateFileChangeCommentThreads exampleReplyNode [0] [exampleReplyThread]
                           ''a.ts'')) = [0]"
  by code_simp


section \<open>The review comment provider (\<^verbatim>\<open>ReviewDocumentCommentProvider\<close>)\<close>

text \<open>
  The state of the provider: the comment controller with its input box (absent, or with
  its current text), whether the manager has an active pull request and the draft mode
  recorded on it, the four maps from a file to its live threads, the file changes of the
  head commit and of superseded commits, and the flat comment list \<^verbatim>\<open>_comments\<close>.
  Comments are values: a comment object that sits in several collections is a copy in each,
  and an assignment to a field of the object is made to every copy.
\<close>

record Provider =
  controller :: Host
  inputBox :: "string option"
  activePullRequest :: bool
  prInDraftMode :: bool
  workspaceFileChangeCommentThreads :: "(string, threadRef list) dict"
  obsoleteFileChangeCommentThreads :: "(string, threadRef list) dict"
  reviewDocumentCommentThreads :: "(string, threadRef list) dict"
  prDocumentCommentThreads :: "(string, threadRef list) dict"
  localFileChanges :: "FileChangeNode list"
  obsoleteFileChanges :: "AnyFileChangeNode list"
  allComments :: "Comment list"

text \<open>
  The calls that leave the process. Each is given by its outcome, a rejection being
  \<open>Inl\<close>: \<^verbatim>\<open>authenticate\<close>, \<^verbatim>\<open>editReviewComment(pr, rawComment, text)\<close>,
  \<^verbatim>\<open>deleteReviewComment(pr, commentId)\<close>, \<^verbatim>\<open>addCommentReaction\<close> and
  \<^verbatim>\<open>deleteCommentReaction(pr, graphNodeId, reaction)\<close> with the reaction groups of the
  answer already parsed by \<^verbatim>\<open>parseGraphQLReaction\<close>, \<^verbatim>\<open>createComment(pr, text, fileName,
  position)\<close>, \<^verbatim>\<open>inDraftMode(pr)\<close>, \<^verbatim>\<open>deleteReview(pr)\<close> with the id of the deleted review and
  its comments, and \<^verbatim>\<open>repository.diffWith(headSha, fileName)\<close>. Two helpers outside the sources
  at hand complete them: \<^verbatim>\<open>mapHeadLineToDiffHunkPosition\<close>, and \<open>sameFsPath name target\<close>,
  the test whether \<^verbatim>\<open>Uri.file(resolve(rootUri.fsPath, name)).fsPath\<close> is
  \<^verbatim>\<open>Uri.file(target).fsPath\<close>.
\<close>

record Remote =
  authenticate :: bool
  editReviewComment :: "Comment \<Rightarrow> string \<Rightarrow> error + Comment"
  deleteReviewComment :: "string \<Rightarrow> error + unit"
  addCommentReaction :: "string \<Rightarrow> CommentReaction \<Rightarrow> error + Reaction list"
  deleteCommentReaction :: "string \<Rightarrow> CommentReaction \<Rightarrow> error + Reaction list"
  createComment :: "string \<Rightarrow> string \<Rightarrow> int \<Rightarrow> error + Comment"
  inDraftModeQuery :: "error + bool"
  deleteReviewCall :: "error + nat \<times> Comment list"
  diffWith :: "string \<Rightarrow> error + string"
  mapHeadLineToDiffHunkPosition :: "DiffHunk list \<Rightarrow> string \<Rightarrow> int \<Rightarrow> bool \<Rightarrow> int"
  sameFsPath :: "string \<Rightarrow> string option \<Rightarrow> bool"

text \<open>
  \<^verbatim>\<open>Array.prototype.findIndex\<close>, with \<open>None\<close> for \<^verbatim>\<open>-1\<close>, and the two uses of
  \<^verbatim>\<open>splice\<close>: replacing and removing one element.
\<close>

definition findIndex :: "('a \<Rightarrow> bool) \<Rightarrow> 'a list \<Rightarrow> nat option" where
  "findIndex P xs = (if list_ex P xs then Some (length (takeWhile (\<lambda>x. \<not> P x) xs)) else None)"

definition spliceReplace :: "'a list \<Rightarrow> nat \<Rightarrow> 'a \<Rightarrow> 'a list" where
  "spliceReplace xs i x = xs[i := x]"


subsection \<open>\<^verbatim>\<open>findMatchedFileByUri\<close>\<close>

text \<open>
  The matched file is an object of one of the two lists of file changes; it is given by
  the list and its index there. \<^verbatim>\<open>fromReviewUri\<close> throws on a query that does not parse,
  and \<^verbatim>\<open>fromPRUri(uri)!.fileName\<close> throws when the URI carries no parameters.
\<close>

datatype FileLocation = LocalFile nat | ObsoleteFile nat

definition uriMatches :: "Remote \<Rightarrow> Uri \<Rightarrow> string option \<Rightarrow> FileChangeNode \<Rightarrow> bool" where
  "uriMatches api uri target fileChange =
     (if scheme uri = ''review'' \<or> scheme uri = ''pr''
      then Some (fileName fileChange) = target
      else sameFsPath api (fileName fileChange) target)"

definition findMatchedFileByUri :: "Remote \<Rightarrow> Provider \<Rightarrow> Uri \<Rightarrow> error + FileLocation option" where
  "findMatchedFileByUri api s uri =
     (case (if scheme uri = ''review''
            then (case fromReviewUri uri of
                    None \<Rightarrow> Inl (Error ''Unexpected token in JSON'')
                  | Some q \<Rightarrow> Inr (rv_isOutdated q, Some (rv_path q)))
            else if scheme uri = ''file'' then Inr (False, Some (uriPath uri))
            else if scheme uri = ''pr''
            then (case fromPRUri uri of
                    None \<Rightarrow> Inl (Error ''Cannot read property fileName of undefined'')
                  | Some p \<Rightarrow> Inr (False, Some (pr_fileName p)))
            else Inr (False, None)) of
        Inl e \<Rightarrow> Inl e
      | Inr (isOutdated, target) \<Rightarrow>
          if isOutdated
          then Inr (map_option ObsoleteFile
                 (findIndex (\<lambda>node. case node of Remote r \<Rightarrow> False
                                    | InMem fileChange \<Rightarrow> uriMatches api uri target fileChange)
                    (obsoleteFileChanges s)))
          else Inr (map_option LocalFile
                 (findIndex (uriMatches api uri target) (localFileChanges s))))"

definition fileAt :: "Provider \<Rightarrow> FileLocation \<Rightarrow> FileChangeNode option" where
  "fileAt s loc =
     (case loc of
        LocalFile i \<Rightarrow> if i < length (localFileChanges s) then Some (localFileChanges s ! i) else None
      | ObsoleteFile i \<Rightarrow>
          if i < length (obsoleteFileChanges s)
          then (case obsoleteFileChanges s ! i of Remote r \<Rightarrow> None | InMem f \<Rightarrow> Some f)
          else None)"

definition fileComments :: "Provider \<Rightarrow> FileLocation \<Rightarrow> Comment list" where
  "fileComments s loc = (case fileAt s loc of None \<Rightarrow> [] | Some f \<Rightarrow> comments f)"

definition setFileComments :: "Provider \<Rightarrow> FileLocation \<Rightarrow> Comment list \<Rightarrow> Provider" where
  "setFileComments s loc cs =
     (case fileAt s loc of
        None \<Rightarrow> s
      | Some f \<Rightarrow>
          (case loc of
             LocalFile i \<Rightarrow> s\<lparr>localFileChanges := (localFileChanges s)[i := f\<lparr>comments := cs\<rparr>]\<rparr>
           | ObsoleteFile i \<Rightarrow>
               s\<lparr>obsoleteFileChanges := (obsoleteFileChanges s)[i := InMem (f\<lparr>comments := cs\<rparr>)]\<rparr>))"

subsection \<open>\<^verbatim>\<open>deleteReview\<close>\<close>

definition isDeleted :: "Comment list \<Rightarrow> VSComment \<Rightarrow> bool" where
  "isDeleted deletedReviewComments comment =
     list_ex (\<lambda>deletedComment. toString (id deletedComment) = commentId comment) deletedReviewComments"

text \<open>
  \<^verbatim>\<open>commentThreadMap[fileName].forEach(thread => ...)\<close>: the comments of every thread are
  filtered; a thread left without comments is disposed, the others are collected.
\<close>

fun filterThreadsLoop :: "Host \<Rightarrow> Comment list \<Rightarrow> threadRef list \<Rightarrow> threadRef list \<Rightarrow> threadRef list \<times> Host" where
  "filterThreadsLoop h deletedReviewComments [] kept = (kept, h)"
| "filterThreadsLoop h deletedReviewComments (r # rest) kept =
     (case getThread h r of
        None \<Rightarrow> filterThreadsLoop h deletedReviewComments rest kept
      | Some thread \<Rightarrow>
          (let remaining = filter (\<lambda>comment. \<not> isDeleted deletedReviewComments comment)
                             (threadComments thread);
               h' = setComments h r remaining
           in if remaining = []
              then filterThreadsLoop (dispose h' r) deletedReviewComments rest kept
              else filterThreadsLoop h' deletedReviewComments rest (kept @ [r])))"

text \<open>
  \<^verbatim>\<open>for (let fileName in commentThreadMap)\<close>: the entry of a file is replaced by the
  threads that are left, or deleted when none is left.
\<close>

fun filterMapLoop ::
  "Host \<Rightarrow> Comment list \<Rightarrow> (string \<times> threadRef list) list \<Rightarrow> (string, threadRef list) dict
     \<Rightarrow> (string, threadRef list) dict \<times> Host" where
  "filterMapLoop h deletedReviewComments [] commentThreadMap = (commentThreadMap, h)"
| "filterMapLoop h deletedReviewComments ((name, refs) # rest) commentThreadMap =
     (let (kept, h') = filterThreadsLoop h deletedReviewComments refs []
      in filterMapLoop h' deletedReviewComments rest
           (if kept \<noteq> [] then dictSet commentThreadMap name kept
            else dictDelete commentThreadMap name))"

definition filterThreadMap ::
  "Host \<Rightarrow> Comment list \<Rightarrow> (string, threadRef list) dict \<Rightarrow> (string, threadRef list) dict \<times> Host" where
  "filterThreadMap h deletedReviewComments commentThreadMap =
     filterMapLoop h deletedReviewComments (forIn stringIndex commentThreadMap) commentThreadMap"

text \<open>
  The result of an operation is the rejection of its promise, if any, and the state it
  leaves behind.
\<close>

definition deleteReview :: "Remote \<Rightarrow> Provider \<Rightarrow> error option \<times> Provider" where
  "deleteReview api s =
     (case deleteReviewCall api of
        Inl e \<Rightarrow> (Some e, s)
      | Inr (deletedReviewId, deletedReviewComments) \<Rightarrow>
          (let box = (case inputBox s of
                        None \<Rightarrow> None
                      | Some v \<Rightarrow> if v \<noteq> [] then Some [] else Some v);
               (m1, h1) = filterThreadMap (controller s) deletedReviewComments
                            (workspaceFileChangeCommentThreads s);
               (m2, h2) = filterThreadMap h1 deletedReviewComments
                            (obsoleteFileChangeCommentThreads s);
               (m3, h3) = filterThreadMap h2 deletedReviewComments (prDocumentCommentThreads s);
               (m4, h4) = filterThreadMap h3 deletedReviewComments (reviewDocumentCommentThreads s)
           in (None, s\<lparr>controller := h4, inputBox := box,
                        workspaceFileChangeCommentThreads := m1,
                        obsoleteFileChangeCommentThreads := m2,
                        prDocumentCommentThreads := m3,
                        reviewDocumentCommentThreads := m4\<rparr>)))"

subsection \<open>\<^verbatim>\<open>editComment\<close>\<close>

text \<open>
  The body of the \<^verbatim>\<open>try\<close> block; the \<^verbatim>\<open>catch\<close> rethrows every error with its formatted
  message, which leaves the state as the error found it.
\<close>

definition editedThreadComments :: "VSComment list \<Rightarrow> Comment \<Rightarrow> VSComment list" where
  "editedThreadComments cs editedComment =
     (let vscodeComment = convertToVSCodeComment editedComment None
      in map (\<lambda>cmt. if commentId cmt = commentId vscodeComment
                     then vscodeComment\<lparr>editCommand := Some getEditCommand,
                                        deleteCommand := Some getDeleteCommand\<rparr>
                     else cmt) cs)"

definition editComment :: "Remote \<Rightarrow> Provider \<Rightarrow> threadRef \<Rightarrow> VSComment \<Rightarrow> error option \<times> Provider" where
  "editComment api s threadRef comment =
     (case (getThread (controller s) threadRef, inputBox s) of
        (Some thread, Some text) \<Rightarrow>
          if \<not> authenticate api then (None, s)
          else if \<not> activePullRequest s then (Some (Error ''Unable to find active pull request''), s)
          else (case findMatchedFileByUri api s (resource thread) of
                  Inl e \<Rightarrow> (Some e, s)
                | Inr None \<Rightarrow> (Some (Error ''Unable to find matching file''), s)
                | Inr (Some matchedFile) \<Rightarrow>
                    (case find (\<lambda>c. Some (id c) = Number (commentId comment)) (fileComments s matchedFile) of
                       None \<Rightarrow> (Some (Error ''Unable to find comment''), s)
                     | Some existingComment \<Rightarrow>
                         (case editReviewComment api existingComment text of
                            Inl e \<Rightarrow> (Some e, s)
                          | Inr editedComment \<Rightarrow>
                              (let s1 = (case findIndex (\<lambda>c. toString (id c) = commentId comment)
                                                (fileComments s matchedFile) of
                                           None \<Rightarrow> s
                                         | Some matchingCommentIndex \<Rightarrow>
                                             setFileComments s matchedFile
                                               (spliceReplace (fileComments s matchedFile)
                                                  matchingCommentIndex editedComment));
                                   s2 = (case findIndex (\<lambda>c. toString (id c) = commentId comment)
                                                (allComments s1) of
                                           None \<Rightarrow> s1
                                         | Some indexInAllComments \<Rightarrow>
                                             s1\<lparr>allComments := spliceReplace (allComments s1)
                                                                   indexInAllComments editedComment\<rparr>)
                               in (None, s2\<lparr>controller := setComments (controller s2) threadRef
                                              (editedThreadComments (threadComments thread)
                                                 editedComment)\<rparr>)))))
      | (Some thread, None) \<Rightarrow> (None, s)
      | (None, box) \<Rightarrow> (Some (Error ''Cannot read property resource of undefined''), s))"

subsection \<open>\<^verbatim>\<open>deleteComment\<close>\<close>


subsection \<open>\<^verbatim>\<open>editReaction\<close>\<close>




subsection \<open>\<^verbatim>\<open>updateCommentThreadRoot\<close>\<close>



subsection \<open>Facts about the helpers\<close>

lemma takeWhile_length_less:
  "\<exists>x \<in> set xs. P x \<Longrightarrow> length (takeWhile (\<lambda>x. \<not> P x) xs) < length xs"
  by (induction xs) auto

lemma findIndex_Some:
  "findIndex P xs = Some i \<Longrightarrow> i < length xs \<and> P (xs ! i) \<and> (\<forall>j < i. \<not> P (xs ! j))"
proof -
  assume a: "findIndex P xs = Some i"
  then have ex: "\<exists>x \<in> set xs. P x" and i: "i = length (takeWhile (\<lambda>x. \<not> P x) xs)"
    by (auto simp: findIndex_def list_ex_iff split: if_splits)
  have "i < length xs"
    unfolding i using ex by (rule takeWhile_length_less)
  moreover have "P (xs ! i)"
    using nth_length_takeWhile [of "\<lambda>x. \<not> P x" xs] \<open>i < length xs\<close> i by simp
  moreover have "\<forall>j < i. \<not> P (xs ! j)"
  proof (intro allI impI)
    fix j assume "j < i"
    then have j: "j < length (takeWhile (\<lambda>x. \<not> P x) xs)" using i by simp
    then have "takeWhile (\<lambda>x. \<not> P x) xs ! j \<in> set (takeWhile (\<lambda>x. \<not> P x) xs)"
      by (rule nth_mem)
    then have "\<not> P (takeWhile (\<lambda>x. \<not> P x) xs ! j)"
      by (blast dest: set_takeWhileD)
    then show "\<not> P (xs ! j)"
      using takeWhile_nth [OF j] by simp
  qed
  ultimately show ?thesis by simp
qed

lemma find_Some_findIndex:
  "find P xs = Some x \<Longrightarrow> \<exists>i. findIndex P xs = Some i"
  by (auto simp: findIndex_def list_ex_iff find_Some_iff)

lemma getThread_setComments:
  "getThread h r = Some t \<Longrightarrow>
   getThread (setComments h r cs) r' =
     (if r' = r then Some (t\<lparr>threadComments := cs\<rparr>) else getThread h r')"
  by (auto simp: getThread_def setComments_def split: if_splits)

lemma fileComments_setFileComments:
  "fileAt s loc = Some f \<Longrightarrow> fileComments (setFileComments s loc cs) loc = cs"
  by (cases loc) (auto simp: fileComments_def setFileComments_def fileAt_def split: if_splits
      AnyFileChangeNode.splits)

lemma setFileComments_frame:
  "allComments (setFileComments s loc cs) = allComments s"
  "controller (setFileComments s loc cs) = controller s"
  by (cases loc; simp add: setFileComments_def split: option.splits)+

lemma fileComments_frame:
  "fileComments (s\<lparr>allComments := a\<rparr>) loc = fileComments s loc"
  "fileComments (s\<lparr>controller := h\<rparr>) loc = fileComments s loc"
  by (cases loc; simp add: fileComments_def fileAt_def)+

subsection \<open>Deleting a review\<close>

lemma deleteReview_keeps_comment_lists:
  "allComments (snd (deleteReview api s)) = allComments s
   \<and> localFileChanges (snd (deleteReview api s)) = localFileChanges s
   \<and> obsoleteFileChanges (snd (deleteReview api s)) = obsoleteFileChanges s"
  by (simp add: deleteReview_def Let_def split: sum.splits prod.splits)

text \<open>
  A provider for the file \<^verbatim>\<open>a.ts\<close> with two comments, of the reviews 7 and 8, in one live
  thread of the workspace file, and a remote side that deletes review 8 with its comment.
\<close>

definition exampleReviewComments :: "Comment list" where
  "exampleReviewComments =
     [exampleComment 11 (Some 3) (Some 3) ''first'',
      (exampleComment 12 (Some 3) (Some 3) ''pending'')\<lparr>pullRequestReviewId := Some 8\<rparr>]"

definition exampleProvider :: Provider where
  "exampleProvider =
     \<lparr>controller = \<lparr>liveThreads = [(exampleThread ''11'' exampleReviewComments)
                                      \<lparr>resource := \<lparr>scheme = ''file'', uriPath = ''a.ts'',
                                                     query = EmptyQuery\<rparr>\<rparr>],
                     disposeCalls = []\<rparr>,
      inputBox = Some ''edited'',
      activePullRequest = True,
      prInDraftMode = True,
      workspaceFileChangeCommentThreads = [(''a.ts'', [0])],
      obsoleteFileChangeCommentThreads = [],
      reviewDocumentCommentThreads = [],
      prDocumentCommentThreads = [],
      localFileChanges = [exampleGitFile\<lparr>comments := exampleReviewComments\<rparr>],
      obsoleteFileChanges = [],
      allComments = exampleReviewComments\<rparr>"

definition exampleRemote :: Remote where
  "exampleRemote =
     \<lparr>authenticate = True,
      editReviewComment = (\<lambda>c text. Inr (c\<lparr>body := text\<rparr>)),
      deleteReviewComment = (\<lambda>cid. Inr ()),
      addCommentReaction = (\<lambda>node reaction. Inr [\<lparr>reactionLabel = label reaction,
                                                     viewerHasReacted = True, count = 1\<rparr>]),
      deleteCommentReaction = (\<lambda>node reaction. Inr []),
      createComment = (\<lambda>text name pos. Inr ((exampleComment 14 (Some pos) (Some pos) text)
                                                 \<lparr>path := Some name\<rparr>)),
      inDraftModeQuery = Inr True,
      deleteReviewCall = Inr (8, [(exampleComment 12 (Some 3) (Some 3) ''pending'')
                                    \<lparr>pullRequestReviewId := Some 8\<rparr>]),
      diffWith = (\<lambda>name. Inr []),
      mapHeadLineToDiffHunkPosition = (\<lambda>hunks contentDiff line isBase. line),
      sameFsPath = (\<lambda>name target. Some name = target)\<rparr>"





text \<open>
  C2. After \<open>deleteReview\<close> has deleted review 8 with its comment 12, the live thread of
  \<^verbatim>\<open>a.ts\<close> holds comment 11 only, but the flat comment list and the comments of the file
  change still hold the deleted comment 12: \<open>deleteReview\<close> filters the four thread maps
  and neither of the two lists.
\<close>

theorem deleteReview_leaves_deleted_comment:
  "fst (deleteReview exampleRemote exampleProvider) = None
   \<and> map (\<lambda>t. map commentId (threadComments t))
        (liveThreads (controller (snd (deleteReview exampleRemote exampleProvider)))) = [[''11'']]
   \<and> map id (allComments (snd (deleteReview exampleRemote exampleProvider))) = [11, 12]
   \<and> map (\<lambda>f. map id (comments f))
        (localFileChanges (snd (deleteReview exampleRemote exampleProvider))) = [[11, 12]]"
  by code_simp

subsection \<open>A failing remote call\<close>




subsection \<open>Editing a comment\<close>

lemma map_id_update:
  "i < length xs \<Longrightarrow> f (xs ! i) = f y \<Longrightarrow> map f (xs[i := y]) = map f xs"
  by (simp add: map_update list_update_same_conv)

text \<open>
  C7. When \<open>editComment\<close> runs to its end and the server returns the edited comment under
  the id of the comment being edited, the comment list of the matched file is the old list
  with the edited comment at the index of the first comment of that id, the flat comment
  list likewise (it is unchanged when it has no comment of that id), and the comments of
  the thread are the old ones with every comment of that id replaced by the editor comment
  made from the edited comment. The thread keeps its id, and the three arrays keep their
  length and the order of their ids.
\<close>

theorem editComment_replaces_in_place:
  assumes thread: "getThread (controller s) t = Some thread"
    and box: "inputBox s = Some text"
    and auth: "authenticate api"
    and active: "activePullRequest s"
    and loc: "findMatchedFileByUri api s (resource thread) = Inr (Some loc)"
    and found: "find (\<lambda>c. Some (id c) = Number (commentId comment)) (fileComments s loc) = Some existing"
    and remote: "editReviewComment api existing text = Inr edited"
    and same: "commentId comment = toString (id edited)"
  shows "\<exists>s'. editComment api s t comment = (None, s')
     \<and> (\<exists>i < length (fileComments s loc).
           id (fileComments s loc ! i) = id edited
         \<and> (\<forall>j < i. id (fileComments s loc ! j) \<noteq> id edited)
         \<and> fileComments s' loc = (fileComments s loc)[i := edited])
     \<and> (case findIndex (\<lambda>c. id c = id edited) (allComments s) of
           None \<Rightarrow> allComments s' = allComments s
         | Some j \<Rightarrow> allComments s' = (allComments s)[j := edited])
     \<and> map id (fileComments s' loc) = map id (fileComments s loc)
     \<and> map id (allComments s') = map id (allComments s)
     \<and> (\<exists>thread'. getThread (controller s') t = Some thread'
          \<and> threadId thread' = threadId thread
          \<and> map commentId (threadComments thread') = map commentId (threadComments thread)
          \<and> (\<forall>k < length (threadComments thread).
                threadComments thread' ! k =
                  (if commentId (threadComments thread ! k) = commentId comment
                   then (convertToVSCodeComment edited None)
                          \<lparr>editCommand := Some getEditCommand, deleteCommand := Some getDeleteCommand\<rparr>
                   else threadComments thread ! k)))"
proof -
  define P where "P = (\<lambda>c::Comment. id c = id edited)"
  define xs where "xs = fileComments s loc"
  have num: "Number (commentId comment) = Some (id edited)"
    using same by simp
  have pred1: "(\<lambda>c. Some (id c) = Number (commentId comment)) = P"
    by (auto simp: num P_def)
  have pred2: "(\<lambda>c::Comment. toString (id c) = commentId comment) = P"
    by (auto simp: same P_def)
  from found have "find P xs = Some existing"
    by (simp add: pred1 xs_def)
  then obtain i where i: "findIndex P xs = Some i"
    by (blast dest: find_Some_findIndex)
  from findIndex_Some [OF i]
  have ilen: "i < length xs" and ihit: "id (xs ! i) = id edited"
    and ifirst: "\<forall>j < i. id (xs ! j) \<noteq> id edited"
    by (simp_all add: P_def)
  from ilen obtain f where f: "fileAt s loc = Some f"
    by (auto simp: xs_def fileComments_def split: option.splits)
  define s1 where "s1 = setFileComments s loc (xs[i := edited])"
  define s2 where "s2 = (case findIndex P (allComments s1) of
                           None \<Rightarrow> s1
                         | Some j \<Rightarrow> s1\<lparr>allComments := (allComments s1)[j := edited]\<rparr>)"
  define s3 where "s3 = s2\<lparr>controller := setComments (controller s2) t
                              (editedThreadComments (threadComments thread) edited)\<rparr>"
  have res: "editComment api s t comment = (None, s3)"
    using thread box auth active loc found remote i
    by (simp add: editComment_def pred2 spliceReplace_def s1_def s2_def s3_def xs_def [symmetric]
        Let_def split: option.splits)
  have c2: "controller s2 = controller s"
    by (simp add: s2_def s1_def setFileComments_frame split: option.splits)
  have a1: "allComments s1 = allComments s"
    by (simp add: s1_def setFileComments_frame)
  have f1: "fileComments s1 loc = xs[i := edited]"
    unfolding s1_def using f by (rule fileComments_setFileComments)
  have f3: "fileComments s3 loc = xs[i := edited]"
    by (simp add: s3_def s2_def fileComments_frame f1 split: option.splits)
  have a3: "allComments s3 =
              (case findIndex P (allComments s) of
                 None \<Rightarrow> allComments s
               | Some j \<Rightarrow> (allComments s)[j := edited])"
    by (simp add: s3_def s2_def a1 split: option.splits)
  have part_file: "\<exists>i < length (fileComments s loc).
           id (fileComments s loc ! i) = id edited
         \<and> (\<forall>j < i. id (fileComments s loc ! j) \<noteq> id edited)
         \<and> fileComments s3 loc = (fileComments s loc)[i := edited]"
    using ilen ihit ifirst f3 unfolding xs_def by blast
  have part_flat: "case findIndex (\<lambda>c. id c = id edited) (allComments s) of
           None \<Rightarrow> allComments s3 = allComments s
         | Some j \<Rightarrow> allComments s3 = (allComments s)[j := edited]"
    using a3 by (simp add: P_def split: option.splits)
  have order_file: "map id (fileComments s3 loc) = map id (fileComments s loc)"
    using ilen ihit by (simp add: f3 map_id_update xs_def [symmetric])
  have order_flat: "map id (allComments s3) = map id (allComments s)"
  proof (cases "findIndex P (allComments s)")
    case None
    then show ?thesis by (simp add: a3)
  next
    case (Some j)
    from findIndex_Some [OF Some] have "j < length (allComments s)"
      and "id (allComments s ! j) = id edited"
      by (simp_all add: P_def)
    then show ?thesis by (simp add: a3 Some map_id_update)
  qed
  let ?thread' = "thread\<lparr>threadComments := editedThreadComments (threadComments thread) edited\<rparr>"
  have t3: "getThread (controller s3) t = Some ?thread'"
    using thread by (simp add: s3_def c2 getThread_setComments)
  have cid: "commentId (convertToVSCodeComment edited None) = commentId comment"
    by (simp add: convertToVSCodeComment_def same)
  have ids: "map commentId (threadComments ?thread') = map commentId (threadComments thread)"
    by (auto simp: editedThreadComments_def Let_def cid)
  have each: "\<forall>k < length (threadComments thread).
                threadComments ?thread' ! k =
                  (if commentId (threadComments thread ! k) = commentId comment
                   then (convertToVSCodeComment edited None)
                          \<lparr>editCommand := Some getEditCommand, deleteCommand := Some getDeleteCommand\<rparr>
                   else threadComments thread ! k)"
    by (simp add: editedThreadComments_def Let_def cid)
  have part_thread: "\<exists>thread'. getThread (controller s3) t = Some thread'
          \<and> threadId thread' = threadId thread
          \<and> map commentId (threadComments thread') = map commentId (threadComments thread)
          \<and> (\<forall>k < length (threadComments thread).
                threadComments thread' ! k =
                  (if commentId (threadComments thread ! k) = commentId comment
                   then (convertToVSCodeComment edited None)
                          \<lparr>editCommand := Some getEditCommand, deleteCommand := Some getDeleteCommand\<rparr>
                   else threadComments thread ! k))"
    using t3 ids each by (intro exI [of _ ?thread']) simp
  show ?thesis
    using res part_file part_flat order_file order_flat part_thread by blast
qed

theorem editComment_replaces_in_place_witness:
  "fst (editComment exampleRemote exampleProvider 0
          (convertToVSCodeComment (exampleComment 11 (Some 3) (Some 3) ''first'') None)) = None
   \<and> map id (fileComments (snd (editComment exampleRemote exampleProvider 0
          (convertToVSCodeComment (exampleComment 11 (Some 3) (Some 3) ''first'') None))) (LocalFile 0))
       = [11, 12]
   \<and> map id (allComments (snd (editComment exampleRemote exampleProvider 0
          (convertToVSCodeComment (exampleComment 11 (Some 3) (Some 3) ''first'') None))))
       = [11, 12]
   \<and> map body (allComments (snd (editComment exampleRemote exampleProvider 0
          (convertToVSCodeComment (exampleComment 11 (Some 3) (Some 3) ''first'') None))))
       = [''edited'', ''pending'']"
proof -
  let ?c = "exampleComment 11 (Some 3) (Some 3) ''first''"
  let ?comment = "convertToVSCodeComment ?c None"
  let ?thread = "liveThreads (controller exampleProvider) ! 0"
  have thread: "getThread (controller exampleProvider) 0 = Some ?thread"
    by code_simp
  have box: "inputBox exampleProvider = Some ''edited''"
    by (simp add: exampleProvider_def)
  have auth: "authenticate exampleRemote"
    by (simp add: exampleRemote_def)
  have active: "activePullRequest exampleProvider"
    by (simp add: exampleProvider_def)
  have loc: "findMatchedFileByUri exampleRemote exampleProvider (resource ?thread)
               = Inr (Some (LocalFile 0))"
    by code_simp
  have found: "find (\<lambda>c. Some (id c) = Number (commentId ?comment))
                 (fileComments exampleProvider (LocalFile 0)) = Some ?c"
    by code_simp
  have remote: "editReviewComment exampleRemote ?c ''edited'' = Inr (?c\<lparr>body := ''edited''\<rparr>)"
    by (simp add: exampleRemote_def)
  have same: "commentId ?comment = toString (id (?c\<lparr>body := ''edited''\<rparr>))"
    by (simp add: convertToVSCodeComment_def)
  have before: "map id (fileComments exampleProvider (LocalFile 0)) = [11, 12]"
    "map id (allComments exampleProvider) = [11, 12]"
    by code_simp+
  have bodies: "map body (allComments (snd (editComment exampleRemote exampleProvider 0 ?comment)))
                  = [''edited'', ''pending'']"
    by code_simp
  from editComment_replaces_in_place [OF thread box auth active loc found remote same]
  obtain s' where "editComment exampleRemote exampleProvider 0 ?comment = (None, s')"
    and "map id (fileComments s' (LocalFile 0)) = map id (fileComments exampleProvider (LocalFile 0))"
    and "map id (allComments s') = map id (allComments exampleProvider)"
    by blast
  then show ?thesis
    using before bodies by simp
qed

section \<open>Reconciling the live threads of the review comment provider\<close>

text \<open>The id of the live thread behind a reference, and the assignment of a thread's range.\<close>

definition liveId :: "Host \<Rightarrow> threadRef \<Rightarrow> string option" where
  "liveId h r = map_option threadId (getThread h r)"

definition setRange :: "Host \<Rightarrow> threadRef \<Rightarrow> Range \<Rightarrow> Host" where
  "setRange h r rg =
     (case getThread h r of
        None \<Rightarrow> h
      | Some t \<Rightarrow> h\<lparr>liveThreads := (liveThreads h)[r := t\<lparr>range := rg\<rparr>]\<rparr>)"

subsection \<open>\<^verbatim>\<open>ReviewDocumentCommentProvider.updateFileChangeCommentThreads\<close>\<close>

text \<open>
  \<^verbatim>\<open>newThreads.forEach(thread => ...)\<close>: the first existing thread with the id of the new
  thread takes its range and comments and is pushed to the result; without such a thread
  the new thread is made live and pushed.
\<close>

fun mergeThreadsLoop ::
  "Host \<Rightarrow> threadRef list \<Rightarrow> CommentThread list \<Rightarrow> threadRef list \<Rightarrow> threadRef list \<times> Host" where
  "mergeThreadsLoop h existingCommentThreads [] resultThreads = (resultThreads, h)"
| "mergeThreadsLoop h existingCommentThreads (thread # rest) resultThreads =
     (case matchingRefs h existingCommentThreads thread of
        first # others \<Rightarrow>
          mergeThreadsLoop (setComments (setRange h first (range thread)) first (threadComments thread))
            existingCommentThreads rest (resultThreads @ [first])
      | [] \<Rightarrow>
          (let (r, h') = createVSCodeCommentThread h thread
           in mergeThreadsLoop h' existingCommentThreads rest (resultThreads @ [r])))"

text \<open>
  \<^verbatim>\<open>existingCommentThreads.forEach(existingThread => ...)\<close>: an existing thread is disposed
  when \<^verbatim>\<open>matchedThread.length === 0\<close>.
\<close>

fun disposeUnmatchedLoop :: "Host \<Rightarrow> threadRef list \<Rightarrow> CommentThread list \<Rightarrow> Host" where
  "disposeUnmatchedLoop h [] newThreads = h"
| "disposeUnmatchedLoop h (r # rest) newThreads =
     (case getThread h r of
        None \<Rightarrow> disposeUnmatchedLoop h rest newThreads
      | Some existingThread \<Rightarrow>
          (let matchedThread = filter (\<lambda>thread. threadId thread = threadId existingThread) newThreads
           in if length matchedThread = 0
              then disposeUnmatchedLoop (dispose h r) rest newThreads
              else disposeUnmatchedLoop h rest newThreads))"

definition disposeAll :: "Host \<Rightarrow> threadRef list \<Rightarrow> Host" where
  "disposeAll h refs = fold (\<lambda>r h'. dispose h' r) refs h"

text \<open>
  The function reads and writes the entry of the file in
  \<^verbatim>\<open>_workspaceFileChangeCommentThreads\<close>; reading a property of the \<^verbatim>\<open>undefined\<close> entry of
  a file without threads throws. \<^verbatim>\<open>mapCommentsToHead\<close> is not in the sources at hand and is
  a parameter.
\<close>

definition updateFileChangeCommentThreads_review ::
  "Collaborators \<Rightarrow> Remote \<Rightarrow> (DiffHunk list \<Rightarrow> string \<Rightarrow> Comment list \<Rightarrow> Comment list)
     \<Rightarrow> Provider \<Rightarrow> FileChangeNode list \<Rightarrow> string \<Rightarrow> error option \<times> Provider" where
  "updateFileChangeCommentThreads_review env api mapCommentsToHead s fileChanges name =
     (case filter (\<lambda>fileChange. fileName fileChange = name) fileChanges of
        [] \<Rightarrow>
          (case dictGet (workspaceFileChangeCommentThreads s) name of
             None \<Rightarrow> (Some (Error ''Cannot read property forEach of undefined''), s)
           | Some existingCommentThreads \<Rightarrow>
               (None, s\<lparr>controller := disposeAll (controller s) existingCommentThreads,
                        workspaceFileChangeCommentThreads :=
                          dictDelete (workspaceFileChangeCommentThreads s) name\<rparr>))
      | matchedFile # others \<Rightarrow>
          if \<not> activePullRequest s then (Some (Error ''Cannot read property head of undefined''), s)
          else (case diffWith api (fileName matchedFile) of
                  Inl e \<Rightarrow> (Some e, s)
                | Inr contentDiff \<Rightarrow>
                    (let matchingComments = mapCommentsToHead (diffHunks matchedFile) contentDiff
                                              (comments matchedFile)
                     in case workspaceLocalCommentsToCommentThreads env matchedFile
                               matchingComments Collapsed of
                          Inl e \<Rightarrow> (Some e, s)
                        | Inr newThreads \<Rightarrow>
                            (case dictGet (workspaceFileChangeCommentThreads s) name of
                               None \<Rightarrow>
                                 (Some (Error (if newThreads \<noteq> []
                                               then ''Cannot read property filter of undefined''
                                               else ''Cannot read property forEach of undefined'')),
                                  s)
                             | Some existingCommentThreads \<Rightarrow>
                                 (let (resultThreads, h) = mergeThreadsLoop (controller s)
                                                             existingCommentThreads newThreads [];
                                      h' = disposeUnmatchedLoop h existingCommentThreads newThreads
                                  in (None, s\<lparr>controller := h',
                                              workspaceFileChangeCommentThreads :=
                                                dictSet (workspaceFileChangeCommentThreads s) name
                                                  resultThreads\<rparr>))))))"

subsection \<open>\<^verbatim>\<open>updatePRorReviewCommentThreads\<close>\<close>

text \<open>
  \<^verbatim>\<open>threads.forEach(thread => ...)\<close>: for a thread of the document the first thread of the
  file with the same id is looked up; when there is one, that thread of the file is pushed
  to the result, else the thread of the document is disposed.
\<close>

fun matchDocumentLoop ::
  "Host \<Rightarrow> threadRef list \<Rightarrow> threadRef list \<Rightarrow> threadRef list \<Rightarrow> threadRef list \<times> Host" where
  "matchDocumentLoop h [] matchedFileCommentThreads resultThreads = (resultThreads, h)"
| "matchDocumentLoop h (r # rest) matchedFileCommentThreads resultThreads =
     (case getThread h r of
        None \<Rightarrow> matchDocumentLoop h rest matchedFileCommentThreads resultThreads
      | Some thread \<Rightarrow>
          (case find (\<lambda>m. liveId h m = Some (threadId thread)) matchedFileCommentThreads of
             Some matchedFileCommentThread \<Rightarrow>
               matchDocumentLoop h rest matchedFileCommentThreads
                 (resultThreads @ [matchedFileCommentThread])
           | None \<Rightarrow>
               matchDocumentLoop (dispose h r) rest matchedFileCommentThreads resultThreads))"

text \<open>
  \<^verbatim>\<open>matchedFileCommentThreads.forEach(localFileCommentThread => ...)\<close>: a thread of the file
  without a thread of the document of the same id is created on the resource of the
  document; its comments are the comment objects of the thread of the file, which get
  their edit and delete commands.
\<close>

fun createMissingLoop ::
  "Host \<Rightarrow> Uri \<Rightarrow> threadRef list \<Rightarrow> threadRef list \<Rightarrow> threadRef list \<Rightarrow> threadRef list \<times> Host" where
  "createMissingLoop h resourceUri docThreads [] resultThreads = (resultThreads, h)"
| "createMissingLoop h resourceUri docThreads (m # rest) resultThreads =
     (case getThread h m of
        None \<Rightarrow> createMissingLoop h resourceUri docThreads rest resultThreads
      | Some localFileCommentThread \<Rightarrow>
          if find (\<lambda>r. liveId h r = Some (threadId localFileCommentThread)) docThreads = None
          then (let patched = map withCommands (threadComments localFileCommentThread);
                    (vscodeThread, h') =
                      createCommentThread (setComments h m patched)
                        \<lparr>threadId = threadId localFileCommentThread, resource = resourceUri,
                         range = range localFileCommentThread, threadComments = patched,
                         collapsibleState = collapsibleState localFileCommentThread\<rparr>
                in createMissingLoop h' resourceUri docThreads rest (resultThreads @ [vscodeThread]))
          else createMissingLoop h resourceUri docThreads rest resultThreads)"

definition updatePRorReviewCommentThreads ::
  "Host \<Rightarrow> (string, threadRef list) dict \<Rightarrow> string \<Rightarrow> threadRef list \<Rightarrow> threadRef list
     \<Rightarrow> (string, threadRef list) dict \<times> Host" where
  "updatePRorReviewCommentThreads h threadMap name docThreads matchedFileCommentThreads =
     (case docThreads of
        [] \<Rightarrow> (threadMap, h)
      | first # others \<Rightarrow>
          (case getThread h first of
             None \<Rightarrow> (threadMap, h)
           | Some firstThread \<Rightarrow>
               (let (matched, h1) = matchDocumentLoop h docThreads matchedFileCommentThreads [];
                    (resultThreads, h2) = createMissingLoop h1 (resource firstThread) docThreads
                                            matchedFileCommentThreads matched
                in (dictSet threadMap name resultThreads, h2))))"

subsection \<open>Which threads are disposed\<close>

lemma liveId_dispose [simp]: "liveId (dispose h r') r = liveId h r"
  by (simp add: liveId_def getThread_def dispose_def)

lemma liveId_setComments [simp]: "liveId (setComments h r' cs) r = liveId h r"
  by (auto simp: liveId_def getThread_def setComments_def nth_list_update split: option.splits)

lemma liveId_setRange [simp]: "liveId (setRange h r' rg) r = liveId h r"
  by (auto simp: liveId_def getThread_def setRange_def nth_list_update split: option.splits)

lemma liveId_create:
  "r < length (liveThreads h) \<Longrightarrow> liveId (snd (createCommentThread h t)) r = liveId h r"
  by (simp add: liveId_def getThread_def createCommentThread_def nth_append)

lemma disposeCalls_setComments [simp]: "disposeCalls (setComments h r cs) = disposeCalls h"
  by (simp add: setComments_def split: option.splits)

lemma disposeCalls_setRange [simp]: "disposeCalls (setRange h r rg) = disposeCalls h"
  by (simp add: setRange_def split: option.splits)

lemma disposeCalls_create [simp]: "disposeCalls (snd (createCommentThread h t)) = disposeCalls h"
  by (simp add: createCommentThread_def)

lemma length_setComments [simp]: "length (liveThreads (setComments h r cs)) = length (liveThreads h)"
  by (simp add: setComments_def split: option.splits)

lemma length_setRange [simp]: "length (liveThreads (setRange h r rg)) = length (liveThreads h)"
  by (simp add: setRange_def split: option.splits)

lemma length_create [simp]:
  "length (liveThreads (snd (createCommentThread h t))) = Suc (length (liveThreads h))"
  by (simp add: createCommentThread_def)

lemma matchingRefs_liveId:
  "matchingRefs h refs thread = filter (\<lambda>r. liveId h r = Some (threadId thread)) refs"
  unfolding matchingRefs_def liveId_def
  by (rule filter_cong [OF refl]) (simp split: option.splits)

text \<open>The existing threads, as references, that have the id of no new thread.\<close>

definition unmatchedRefs :: "Host \<Rightarrow> threadRef list \<Rightarrow> string list \<Rightarrow> threadRef list" where
  "unmatchedRefs h refs ids =
     filter (\<lambda>r. case liveId h r of None \<Rightarrow> False | Some i \<Rightarrow> i \<notin> set ids) refs"

lemma disposeUnmatchedLoop_calls:
  "disposeCalls (disposeUnmatchedLoop h refs newThreads)
     = disposeCalls h @ unmatchedRefs h refs (map threadId newThreads)
   \<and> liveThreads (disposeUnmatchedLoop h refs newThreads) = liveThreads h"
proof (induction refs arbitrary: h)
  case Nil
  show ?case by (simp add: unmatchedRefs_def)
next
  case (Cons r refs)
  have same: "\<And>r'. unmatchedRefs (dispose h r') refs (map threadId newThreads)
                    = unmatchedRefs h refs (map threadId newThreads)"
    by (simp add: unmatchedRefs_def)
  show ?case
  proof (cases "getThread h r")
    case None
    then show ?thesis
      using Cons.IH [of h] by (simp add: unmatchedRefs_def liveId_def)
  next
    case (Some existingThread)
    show ?thesis
    proof (cases "threadId existingThread \<in> threadId ` set newThreads")
      case True
      then have "filter (\<lambda>thread. threadId thread = threadId existingThread) newThreads \<noteq> []"
        by (auto simp: filter_empty_conv)
      then show ?thesis
        using Cons.IH [of h] Some True by (simp add: unmatchedRefs_def liveId_def)
    next
      case False
      then have "\<forall>thread \<in> set newThreads. threadId thread \<noteq> threadId existingThread"
        by (metis imageI)
      then have "filter (\<lambda>thread. threadId thread = threadId existingThread) newThreads = []"
        by (simp add: filter_empty_conv)
      then show ?thesis
        using Cons.IH [of "dispose h r"] Some False same [of r]
        by (simp add: unmatchedRefs_def liveId_def dispose_def)
    qed
  qed
qed

lemma mergeThreadsLoop_frame:
  assumes "\<forall>r \<in> set existing. r < length (liveThreads h)"
  shows "disposeCalls (snd (mergeThreadsLoop h existing newThreads acc)) = disposeCalls h
       \<and> length (liveThreads h) \<le> length (liveThreads (snd (mergeThreadsLoop h existing newThreads acc)))
       \<and> (\<forall>r < length (liveThreads h).
             liveId (snd (mergeThreadsLoop h existing newThreads acc)) r = liveId h r)"
  using assms
proof (induction newThreads arbitrary: h acc)
  case Nil
  show ?case by simp
next
  case (Cons thread rest)
  show ?case
  proof (cases "matchingRefs h existing thread")
    case Nil
    let ?h' = "snd (createVSCodeCommentThread h thread)"
    have valid: "\<forall>r \<in> set existing. r < length (liveThreads ?h')"
      using Cons.prems by (auto simp: createVSCodeCommentThread_def)
    have step: "mergeThreadsLoop h existing (thread # rest) acc
                  = mergeThreadsLoop ?h' existing rest (acc @ [fst (createVSCodeCommentThread h thread)])"
      using Nil by (simp add: case_prod_beta)
    show ?thesis
      unfolding step
      using Cons.IH [OF valid, of "acc @ [fst (createVSCodeCommentThread h thread)]"]
      by (auto simp: createVSCodeCommentThread_def liveId_create)
  next
    case (Cons first others)
    let ?h' = "setComments (setRange h first (range thread)) first (threadComments thread)"
    have valid: "\<forall>r \<in> set existing. r < length (liveThreads ?h')"
      using Cons.prems by simp
    have step: "mergeThreadsLoop h existing (thread # rest) acc
                  = mergeThreadsLoop ?h' existing rest (acc @ [first])"
      using Cons by simp
    show ?thesis
      unfolding step
      using Cons.IH [OF valid, of "acc @ [first]"] by simp
  qed
qed

lemma matchingRefs_cong:
  "\<forall>r \<in> set refs. liveId h' r = liveId h r \<Longrightarrow> matchingRefs h' refs t = matchingRefs h refs t"
  unfolding matchingRefs_liveId by (rule filter_cong [OF refl]) simp

lemma mergeThreadsLoop_result:
  assumes "\<forall>r \<in> set existing. r < length (liveThreads h)"
  shows "set acc \<subseteq> set (fst (mergeThreadsLoop h existing newThreads acc))
       \<and> (\<forall>thread \<in> set newThreads. \<forall>first others.
             matchingRefs h existing thread = first # others
               \<longrightarrow> first \<in> set (fst (mergeThreadsLoop h existing newThreads acc)))"
  using assms
proof (induction newThreads arbitrary: h acc)
  case Nil
  show ?case by simp
next
  case (Cons thread rest)
  show ?case
  proof (cases "matchingRefs h existing thread")
    case Nil
    let ?h' = "snd (createVSCodeCommentThread h thread)"
    let ?acc' = "acc @ [fst (createVSCodeCommentThread h thread)]"
    have valid: "\<forall>r \<in> set existing. r < length (liveThreads ?h')"
      using Cons.prems by (auto simp: createVSCodeCommentThread_def)
    have step: "mergeThreadsLoop h existing (thread # rest) acc
                  = mergeThreadsLoop ?h' existing rest ?acc'"
      using Nil by (simp add: case_prod_beta)
    have same: "\<And>t. matchingRefs ?h' existing t = matchingRefs h existing t"
      using Cons.prems
      by (intro matchingRefs_cong) (simp add: createVSCodeCommentThread_def liveId_create)
    show ?thesis
      unfolding step
      using Cons.IH [OF valid, of ?acc'] Nil by (auto simp: same)
  next
    case (Cons first others)
    let ?h' = "setComments (setRange h first (range thread)) first (threadComments thread)"
    let ?acc' = "acc @ [first]"
    have valid: "\<forall>r \<in> set existing. r < length (liveThreads ?h')"
      using Cons.prems by simp
    have step: "mergeThreadsLoop h existing (thread # rest) acc
                  = mergeThreadsLoop ?h' existing rest ?acc'"
      using Cons by simp
    have same: "\<And>t. matchingRefs ?h' existing t = matchingRefs h existing t"
      by (intro matchingRefs_cong) simp
    show ?thesis
      unfolding step
      using Cons.IH [OF valid, of ?acc'] Cons by (auto simp: same)
  qed
qed

text \<open>
  The reconciliation of \<^verbatim>\<open>ReviewDocumentCommentProvider.updateFileChangeCommentThreads\<close>
  disposes exactly the existing threads whose id no new thread has, once each and in
  order, and the first existing thread with the id of a new thread is in the result.
\<close>

lemma review_reconcile_disposes_unmatched:
  assumes "\<forall>r \<in> set existing. r < length (liveThreads h)"
  shows "disposeCalls (disposeUnmatchedLoop (snd (mergeThreadsLoop h existing newThreads []))
                         existing newThreads)
           = disposeCalls h @ unmatchedRefs h existing (map threadId newThreads)"
proof -
  let ?h1 = "snd (mergeThreadsLoop h existing newThreads [])"
  note frame = mergeThreadsLoop_frame [OF assms, of newThreads "[]"]
  have "unmatchedRefs ?h1 existing (map threadId newThreads)
          = unmatchedRefs h existing (map threadId newThreads)"
    unfolding unmatchedRefs_def
    by (rule filter_cong [OF refl]) (simp add: frame assms)
  then show ?thesis
    by (simp add: disposeUnmatchedLoop_calls frame)
qed

lemma review_reconcile_keeps_matched:
  assumes "\<forall>r \<in> set existing. r < length (liveThreads h)"
    and "thread \<in> set newThreads"
    and "matchingRefs h existing thread = first # others"
  shows "first \<in> set (fst (mergeThreadsLoop h existing newThreads []))"
  using mergeThreadsLoop_result [OF assms(1), of "[]" newThreads] assms(2,3) by blast

text \<open>
  \<open>updatePRorReviewCommentThreads\<close> disposes exactly the threads of the document whose id no
  thread of the file has. For a thread of the document that has a match, the result holds
  the thread of the file and not the thread of the document.
\<close>

definition matchedFileRef :: "Host \<Rightarrow> threadRef list \<Rightarrow> threadRef \<Rightarrow> threadRef option" where
  "matchedFileRef h matchedFileCommentThreads r =
     (case liveId h r of
        None \<Rightarrow> None
      | Some i \<Rightarrow> find (\<lambda>m. liveId h m = Some i) matchedFileCommentThreads)"

lemma matchDocumentLoop_result:
  "fst (matchDocumentLoop h docThreads matched acc)
     = acc @ List.map_filter (matchedFileRef h matched) docThreads
   \<and> disposeCalls (snd (matchDocumentLoop h docThreads matched acc))
     = disposeCalls h @ filter (\<lambda>r. liveId h r \<noteq> None \<and> matchedFileRef h matched r = None) docThreads
   \<and> liveThreads (snd (matchDocumentLoop h docThreads matched acc)) = liveThreads h"
proof (induction docThreads arbitrary: h acc)
  case Nil
  show ?case by (simp add: List.map_filter_simps)
next
  case (Cons r docThreads)
  have same: "matchedFileRef (dispose h r) matched = matchedFileRef h matched"
    by (rule ext) (simp add: matchedFileRef_def split: option.splits)
  show ?case
  proof (cases "getThread h r")
    case None
    then show ?thesis
      using Cons.IH [of h acc]
      by (simp add: List.map_filter_simps matchedFileRef_def liveId_def)
  next
    case (Some thread)
    show ?thesis
    proof (cases "find (\<lambda>m. liveId h m = Some (threadId thread)) matched")
      case None
      then show ?thesis
        using Cons.IH [of "dispose h r" acc] Some
        by (simp add: List.map_filter_simps same)
           (simp add: matchedFileRef_def liveId_def dispose_def)
    next
      case (Some m)
      then show ?thesis
        using Cons.IH [of h "acc @ [m]"] \<open>getThread h r = Some thread\<close>
        by (simp add: List.map_filter_simps matchedFileRef_def liveId_def)
    qed
  qed
qed

lemma createMissingLoop_calls:
  "disposeCalls (snd (createMissingLoop h resourceUri docThreads matched acc)) = disposeCalls h"
proof (induction matched arbitrary: h acc)
  case Nil
  show ?case by simp
next
  case (Cons m matched)
  show ?case
  proof (cases "getThread h m")
    case None
    then show ?thesis using Cons.IH by simp
  next
    case (Some localFileCommentThread)
    then show ?thesis
      using Cons.IH by (simp add: Let_def case_prod_beta)
  qed
qed

lemma updatePRorReviewCommentThreads_disposes_unmatched:
  assumes "getThread h first \<noteq> None"
  shows "disposeCalls (snd (updatePRorReviewCommentThreads h threadMap name (first # others) matched))
           = disposeCalls h
             @ filter (\<lambda>r. liveId h r \<noteq> None \<and> matchedFileRef h matched r = None) (first # others)"
proof -
  from assms obtain firstThread where first: "getThread h first = Some firstThread"
    by blast
  show ?thesis
    unfolding updatePRorReviewCommentThreads_def
    by (simp add: first case_prod_beta createMissingLoop_calls matchDocumentLoop_result
             del: matchDocumentLoop.simps createMissingLoop.simps)
qed

text \<open>
  A document with the live thread 0 and the file with the live thread 1, both with the id
  11: after \<open>updatePRorReviewCommentThreads\<close> the entry of the document holds the thread of
  the file, and nothing was disposed.
\<close>

definition exampleDocumentHost :: Host where
  "exampleDocumentHost =
     \<lparr>liveThreads = [exampleThread ''11'' [exampleComment 11 (Some 3) (Some 3) ''first''],
                     exampleThread ''11'' [exampleComment 11 (Some 3) (Some 3) ''first'']],
      disposeCalls = []\<rparr>"

lemma updatePRorReviewCommentThreads_example:
  "fst (updatePRorReviewCommentThreads exampleDocumentHost [(''a.ts'', [0])] ''a.ts'' [0] [1])
     = [(''a.ts'', [1])]
   \<and> disposeCalls (snd (updatePRorReviewCommentThreads exampleDocumentHost [(''a.ts'', [0])]
                           ''a.ts'' [0] [1])) = []"
  by code_simp

subsection \<open>The threads of a file after a review was deleted\<close>

text \<open>The comments of a live thread that are not among the deleted comments.\<close>

definition remainingComments :: "Host \<Rightarrow> Comment list \<Rightarrow> threadRef \<Rightarrow> VSComment list" where
  "remainingComments h deletedReviewComments r =
     (case getThread h r of
        None \<Rightarrow> []
      | Some thread \<Rightarrow>
          filter (\<lambda>comment. \<not> isDeleted deletedReviewComments comment) (threadComments thread))"

lemma getThread_dispose [simp]: "getThread (dispose h r') r = getThread h r"
  by (simp add: getThread_def dispose_def)

lemma disposeCalls_dispose [simp]: "disposeCalls (dispose h r) = disposeCalls h @ [r]"
  by (simp add: dispose_def)

text \<open>
  The loop over the threads of one file keeps exactly the threads that have a comment
  left, disposes exactly the others, and leaves every thread of the file with its comments
  that were not deleted; the other live threads are untouched.
\<close>

lemma filterThreadsLoop_result:
  assumes "distinct refs" and "\<forall>r \<in> set refs. r < length (liveThreads h)"
  shows "fst (filterThreadsLoop h deleted refs acc)
           = acc @ filter (\<lambda>r. remainingComments h deleted r \<noteq> []) refs
       \<and> disposeCalls (snd (filterThreadsLoop h deleted refs acc))
           = disposeCalls h @ filter (\<lambda>r. remainingComments h deleted r = []) refs
       \<and> (\<forall>r \<in> set refs.
             map_option threadComments (getThread (snd (filterThreadsLoop h deleted refs acc)) r)
               = Some (remainingComments h deleted r))
       \<and> (\<forall>r. r \<notin> set refs
             \<longrightarrow> getThread (snd (filterThreadsLoop h deleted refs acc)) r = getThread h r)"
  using assms
proof (induction refs arbitrary: h acc)
  case Nil
  show ?case by simp
next
  case (Cons r rest)
  from Cons.prems obtain thread where thread: "getThread h r = Some thread"
    by (auto simp: getThread_def)
  let ?remaining = "filter (\<lambda>comment. \<not> isDeleted deleted comment) (threadComments thread)"
  define h' where "h' = setComments h r ?remaining"
  have rem: "remainingComments h deleted r = ?remaining"
    by (simp add: remainingComments_def thread)
  have other: "\<And>r'. r' \<noteq> r \<Longrightarrow> getThread h' r' = getThread h r'"
    by (simp add: h'_def getThread_setComments [OF thread])
  have self: "getThread h' r = Some (thread\<lparr>threadComments := ?remaining\<rparr>)"
    by (simp add: h'_def getThread_setComments [OF thread])
  have calls: "disposeCalls h' = disposeCalls h"
    by (simp add: h'_def setComments_def thread)
  have notin: "r \<notin> set rest" and dist: "distinct rest"
    using Cons.prems by simp_all
  have valid: "\<forall>r' \<in> set rest. r' < length (liveThreads h')"
    using Cons.prems by (simp add: h'_def setComments_def thread)
  have rems: "\<And>r'. r' \<in> set rest \<Longrightarrow> remainingComments h' deleted r' = remainingComments h deleted r'"
  proof -
    fix r' assume "r' \<in> set rest"
    then have "r' \<noteq> r" using notin by blast
    then have "getThread h' r' = getThread h r'" by (rule other)
    then show "remainingComments h' deleted r' = remainingComments h deleted r'"
      unfolding remainingComments_def by (simp only:)
  qed
  show ?case
  proof (cases "?remaining = []")
    case True
    define h'' where "h'' = dispose h' r"
    have calls': "disposeCalls h'' = disposeCalls h @ [r]"
      by (simp add: h''_def calls)
    have gets: "\<And>r'. getThread h'' r' = getThread h' r'"
      by (simp add: h''_def)
    have step: "filterThreadsLoop h deleted (r # rest) acc = filterThreadsLoop h'' deleted rest acc"
      using thread True by (simp add: Let_def h'_def h''_def)
    have valid': "\<forall>r' \<in> set rest. r' < length (liveThreads h'')"
      using valid by (simp add: h''_def dispose_def)
    have rems': "\<And>r'. r' \<in> set rest \<Longrightarrow> remainingComments h'' deleted r' = remainingComments h deleted r'"
      using rems by (simp add: remainingComments_def gets)
    note IH = Cons.IH [OF dist valid', of acc]
    have keep: "filter (\<lambda>r. remainingComments h'' deleted r \<noteq> []) rest
                  = filter (\<lambda>r. remainingComments h deleted r \<noteq> []) rest"
      by (rule filter_cong [OF refl]) (simp add: rems')
    have drop: "filter (\<lambda>r. remainingComments h'' deleted r = []) rest
                  = filter (\<lambda>r. remainingComments h deleted r = []) rest"
      by (rule filter_cong [OF refl]) (simp add: rems')
    have one: "fst (filterThreadsLoop h'' deleted rest acc)
                 = acc @ filter (\<lambda>r. remainingComments h deleted r \<noteq> []) (r # rest)"
      using IH True by (simp add: keep rem)
    have two: "disposeCalls (snd (filterThreadsLoop h'' deleted rest acc))
                 = disposeCalls h @ filter (\<lambda>r. remainingComments h deleted r = []) (r # rest)"
      using IH True by (simp add: drop rem calls')
    have three: "\<forall>r' \<in> set (r # rest).
                   map_option threadComments (getThread (snd (filterThreadsLoop h'' deleted rest acc)) r')
                     = Some (remainingComments h deleted r')"
    proof
      fix r' assume "r' \<in> set (r # rest)"
      then consider "r' = r" | "r' \<in> set rest" by auto
      then show "map_option threadComments (getThread (snd (filterThreadsLoop h'' deleted rest acc)) r')
                   = Some (remainingComments h deleted r')"
      proof cases
        case 1
        then show ?thesis using IH notin self by (simp add: rem gets)
      next
        case 2
        then show ?thesis using IH rems' by simp
      qed
    qed
    have four: "\<forall>r'. r' \<notin> set (r # rest)
                  \<longrightarrow> getThread (snd (filterThreadsLoop h'' deleted rest acc)) r' = getThread h r'"
      using IH other by (simp add: gets)
    show ?thesis
      unfolding step using one two three four by blast
  next
    case False
    have step: "filterThreadsLoop h deleted (r # rest) acc
                  = filterThreadsLoop h' deleted rest (acc @ [r])"
      using thread False by (simp add: Let_def h'_def)
    note IH = Cons.IH [OF dist valid, of "acc @ [r]"]
    have keep: "filter (\<lambda>r. remainingComments h' deleted r \<noteq> []) rest
                  = filter (\<lambda>r. remainingComments h deleted r \<noteq> []) rest"
      by (rule filter_cong [OF refl]) (simp add: rems)
    have drop: "filter (\<lambda>r. remainingComments h' deleted r = []) rest
                  = filter (\<lambda>r. remainingComments h deleted r = []) rest"
      by (rule filter_cong [OF refl]) (simp add: rems)
    have one: "fst (filterThreadsLoop h' deleted rest (acc @ [r]))
                 = acc @ filter (\<lambda>r. remainingComments h deleted r \<noteq> []) (r # rest)"
      using IH False by (simp add: keep rem)
    have two: "disposeCalls (snd (filterThreadsLoop h' deleted rest (acc @ [r])))
                 = disposeCalls h @ filter (\<lambda>r. remainingComments h deleted r = []) (r # rest)"
      using IH False by (simp add: drop rem calls)
    have three: "\<forall>r' \<in> set (r # rest).
                   map_option threadComments
                     (getThread (snd (filterThreadsLoop h' deleted rest (acc @ [r]))) r')
                     = Some (remainingComments h deleted r')"
    proof
      fix r' assume "r' \<in> set (r # rest)"
      then consider "r' = r" | "r' \<in> set rest" by auto
      then show "map_option threadComments
                   (getThread (snd (filterThreadsLoop h' deleted rest (acc @ [r]))) r')
                   = Some (remainingComments h deleted r')"
      proof cases
        case 1
        then show ?thesis using IH notin self by (simp add: rem)
      next
        case 2
        then show ?thesis using IH rems by simp
      qed
    qed
    have four: "\<forall>r'. r' \<notin> set (r # rest)
                  \<longrightarrow> getThread (snd (filterThreadsLoop h' deleted rest (acc @ [r]))) r' = getThread h r'"
      using IH other by simp
    show ?thesis
      unfolding step using one two three four by blast
  qed
qed

lemma remainingComments_not_deleted:
  "comment \<in> set (remainingComments h deleted r) \<Longrightarrow> \<not> isDeleted deleted comment"
  by (auto simp: remainingComments_def split: option.splits)

section \<open>Serialising the validation of the review state (\<^verbatim>\<open>ReviewManager.updateState\<close>)\<close>

text \<open>
  The part of the review manager that decides when \<^verbatim>\<open>validateState\<close> starts. Promises are
  numbered in the order of their creation. The state holds the flag
  \<^verbatim>\<open>switchingToReviewMode\<close>, the promise kept in \<^verbatim>\<open>_validateStatusInProgress\<close>, the
  promises of the executions of \<^verbatim>\<open>validateState\<close> that have started and not yet returned,
  the callbacks registered with \<^verbatim>\<open>then\<close> that have not run yet (each with the promise it
  waits for and the promise it settles), and the promises already fulfilled. The execution
  started by a callback settles the promise that \<^verbatim>\<open>then\<close> returned, and is named by it.
  Rejected executions are not part of the model.
\<close>

record ReviewManager =
  switchingToReviewMode :: bool
  validateStatusInProgress :: "nat option"
  inFlight :: "nat list"
  chained :: "(nat \<times> nat) list"
  fulfilled :: "nat list"
  nextPromise :: nat

text \<open>
  \<^verbatim>\<open>updateState\<close>: without a promise in progress \<^verbatim>\<open>validateState\<close> is called at once and
  its promise is kept; otherwise a callback that calls \<^verbatim>\<open>validateState\<close> is chained onto
  the promise in progress and the new promise is kept. A callback chained onto a promise
  that is already fulfilled runs in the next microtask, before any other event.
\<close>

definition updateState :: "ReviewManager \<Rightarrow> ReviewManager" where
  "updateState m =
     (if switchingToReviewMode m then m
      else (case validateStatusInProgress m of
              None \<Rightarrow>
                m\<lparr>validateStatusInProgress := Some (nextPromise m),
                  inFlight := inFlight m @ [nextPromise m],
                  nextPromise := nextPromise m + 1\<rparr>
            | Some p \<Rightarrow>
                if p \<in> set (fulfilled m)
                then m\<lparr>validateStatusInProgress := Some (nextPromise m),
                       inFlight := inFlight m @ [nextPromise m],
                       nextPromise := nextPromise m + 1\<rparr>
                else m\<lparr>validateStatusInProgress := Some (nextPromise m),
                       chained := chained m @ [(p, nextPromise m)],
                       nextPromise := nextPromise m + 1\<rparr>))"

text \<open>
  An execution of \<^verbatim>\<open>validateState\<close> returns. When it has run to its last statement
  (\<open>toEnd\<close>), that statement has set \<^verbatim>\<open>_validateStatusInProgress\<close> to \<^verbatim>\<open>undefined\<close>; the
  early returns leave the field alone. Its promise is fulfilled and the callbacks chained
  onto it run: each starts an execution of \<^verbatim>\<open>validateState\<close>.
\<close>

definition validateStateReturns :: "ReviewManager \<Rightarrow> nat \<Rightarrow> bool \<Rightarrow> ReviewManager" where
  "validateStateReturns m p toEnd =
     (if p \<notin> set (inFlight m) then m
      else m\<lparr>validateStatusInProgress := (if toEnd then None else validateStatusInProgress m),
             inFlight := remove1 p (inFlight m)
                         @ map snd (filter (\<lambda>c. fst c = p) (chained m)),
             chained := filter (\<lambda>c. fst c \<noteq> p) (chained m),
             fulfilled := fulfilled m @ [p]\<rparr>)"

datatype ManagerEvent = UpdateStateRequested | ValidateStateReturned nat bool

fun managerStep :: "ReviewManager \<Rightarrow> ManagerEvent \<Rightarrow> ReviewManager" where
  "managerStep m UpdateStateRequested = updateState m"
| "managerStep m (ValidateStateReturned p toEnd) = validateStateReturns m p toEnd"

definition managerRun :: "ReviewManager \<Rightarrow> ManagerEvent list \<Rightarrow> ReviewManager" where
  "managerRun m events = foldl managerStep m events"

definition newManager :: ReviewManager where
  "newManager =
     \<lparr>switchingToReviewMode = False, validateStatusInProgress = None, inFlight = [],
      chained = [], fulfilled = [], nextPromise = 0\<rparr>"

text \<open>
  C9. Two requests, the second while the first execution is in flight; the first execution
  runs to its end; a third request while the chained execution (promise 1) is in flight.
  After the first two requests one execution is in flight and one is chained behind it.
  After the return of the first, the chained one is in flight and
  \<^verbatim>\<open>_validateStatusInProgress\<close> is \<^verbatim>\<open>undefined\<close>. The third request then starts an execution
  at once: the executions 1 and 2 are in flight together.
\<close>

theorem validateState_runs_concurrently:
  "inFlight (managerRun newManager [UpdateStateRequested, UpdateStateRequested]) = [0]
   \<and> chained (managerRun newManager [UpdateStateRequested, UpdateStateRequested]) = [(0, 1)]
   \<and> inFlight (managerRun newManager
        [UpdateStateRequested, UpdateStateRequested, ValidateStateReturned 0 True]) = [1]
   \<and> validateStatusInProgress (managerRun newManager
        [UpdateStateRequested, UpdateStateRequested, ValidateStateReturned 0 True]) = None
   \<and> inFlight (managerRun newManager
        [UpdateStateRequested, UpdateStateRequested, ValidateStateReturned 0 True,
         UpdateStateRequested]) = [1, 2]"
  by code_simp

end
